theory Spec2Isabelle
  imports Main "HOL-Library.Word"
begin

section \<open>The secondary registry: OpenStreamsList (streams.go)\<close>

text \<open>
  \<^verbatim>\<open>type OpenStreamsList struct { streams map[SessionToken]*AppController; length int }\<close>

  The Go map is a partial function from tokens to controllers; the controller type is not
  inspected by any operation and stays a type parameter. The counter \<open>length\<close> is a Go
  \<open>int\<close>, taken at its width on 64-bit platforms: a 64-bit word whose arithmetic wraps
  around and whose value is read as a signed number by \<open>sint\<close>.
\<close>

type_synonym SessionToken = string

record 'ac OpenStreamsList =
  streams :: "SessionToken \<rightharpoonup> 'ac"
  length_osl :: "64 word"

definition NewOpenStreamsList :: "'ac OpenStreamsList" where
  "NewOpenStreamsList = \<lparr>streams = Map.empty, length_osl = 0\<rparr>"

definition Exists_osl :: "'ac OpenStreamsList \<Rightarrow> SessionToken \<Rightarrow> bool" where
  "Exists_osl osl token = (case streams osl token of Some _ \<Rightarrow> True | None \<Rightarrow> False)"

definition Get_osl :: "'ac OpenStreamsList \<Rightarrow> SessionToken \<Rightarrow> 'ac option" where
  \<comment> \<open>\<open>None\<close> is the nil pointer returned for a missing token.\<close>
  "Get_osl osl token = (case streams osl token of None \<Rightarrow> None | Some sc \<Rightarrow> Some sc)"

definition Add_osl :: "SessionToken \<Rightarrow> 'ac \<Rightarrow> 'ac OpenStreamsList \<Rightarrow> 'ac OpenStreamsList" where
  "Add_osl token ac osl =
     osl\<lparr>streams := (streams osl)(token \<mapsto> ac), length_osl := length_osl osl + 1\<rparr>"

definition Delete_osl :: "SessionToken \<Rightarrow> 'ac OpenStreamsList \<Rightarrow> 'ac OpenStreamsList" where
  \<comment> \<open>\<open>delete(osl.streams, token)\<close> does nothing for a missing key; the counter is
      decremented after it in every case.\<close>
  "Delete_osl token osl =
     osl\<lparr>streams := (streams osl)(token := None), length_osl := length_osl osl - 1\<rparr>"

definition IsEmpty_osl :: "'ac OpenStreamsList \<Rightarrow> bool" where
  "IsEmpty_osl osl = (if length_osl osl = 0 then True else False)"

section \<open>Channels\<close>

text \<open>
  A buffered Go channel: the queued values (oldest first), the capacity given to
  \<open>make\<close>, and whether \<open>close\<close> has been called. The runtime panics on a send to a
  closed channel (also inside a \<open>select\<close>) and on closing a closed channel; an operation
  that cannot proceed blocks its goroutine. Both are results of the model.
\<close>

type_synonym bytes = string

datatype failure =
    SendOnClosedChannel
  | CloseOfClosedChannel
  | NilDereference
  | WouldBlock

record 'a chan =
  buf :: "'a list"
  cap :: nat
  closed :: bool

definition make_chan :: "nat \<Rightarrow> 'a chan" where
  "make_chan n = \<lparr>buf = [], cap = n, closed = False\<rparr>"

definition close_chan :: "'a chan \<Rightarrow> failure + 'a chan" where
  "close_chan ch = (if closed ch then Inl CloseOfClosedChannel else Inr (ch\<lparr>closed := True\<rparr>))"

definition send_chan :: "'a chan \<Rightarrow> 'a \<Rightarrow> failure + 'a chan" where
  \<comment> \<open>\<open>ch <- v\<close>\<close>
  "send_chan ch v =
     (if closed ch then Inl SendOnClosedChannel
      else if length (buf ch) < cap ch then Inr (ch\<lparr>buf := buf ch @ [v]\<rparr>)
      else Inl WouldBlock)"

definition try_send :: "'a chan \<Rightarrow> 'a \<Rightarrow> failure + 'a chan option" where
  \<comment> \<open>\<open>select { case ch <- v: ... default: ... }\<close>; \<open>None\<close> is the default branch.\<close>
  "try_send ch v =
     (if closed ch then Inl SendOnClosedChannel
      else if length (buf ch) < cap ch then Inr (Some (ch\<lparr>buf := buf ch @ [v]\<rparr>))
      else Inr None)"

definition recv_chan :: "'a \<Rightarrow> 'a chan \<Rightarrow> failure + ('a \<times> bool \<times> 'a chan)" where
  \<comment> \<open>\<open>v, ok := <-ch\<close>; a closed and drained channel yields the zero value and \<open>ok = false\<close>.\<close>
  "recv_chan zero ch =
     (case buf ch of
        x # xs \<Rightarrow> Inr (x, True, ch\<lparr>buf := xs\<rparr>)
      | [] \<Rightarrow> if closed ch then Inr (zero, False, ch) else Inl WouldBlock)"

section \<open>Connections and sessions (client.go)\<close>

definition sendMsgBufferSize :: nat where
  "sendMsgBufferSize = 1024"

definition sendTokenBufferSize :: nat where
  "sendTokenBufferSize = 1"

definition newline :: bytes where
  "newline = [CHR 0x0A]"

text \<open>
  The fields of \<open>Client\<close> that the hub and the write pump read or write. Clients are
  shared by pointer between the hub, the sessions and the pumps, so they live in a store
  indexed by address; a session holds the address of its client, \<open>None\<close> for nil.
\<close>

record Client =
  "open" :: bool
  send :: "bytes chan"
  sendToken :: "SessionToken chan"

record Session =
  Token :: SessionToken
  Client :: "nat option"
  expireTime :: nat

text \<open>
  \<open>serveWs\<close> builds the client, puts the token of the request on its token queue and
  hands it to the hub.
\<close>

definition serveWs_client :: "SessionToken \<Rightarrow> failure + Client" where
  "serveWs_client sessionToken =
     (let client = \<lparr>open = False, send = make_chan sendMsgBufferSize,
                     sendToken = make_chan sendTokenBufferSize\<rparr>
      in case send_chan (sendToken client) sessionToken of
           Inl f \<Rightarrow> Inl f
         | Inr ch \<Rightarrow> Inr (client\<lparr>sendToken := ch\<rparr>))"

section \<open>The session store\<close>

text \<open>
  Modelled from the spec: the SessionStore behind \<open>svr.sessions\<close> (its type,
  \<open>NewDefaultSessionManager\<close>, \<open>Exists\<close>, \<open>NewSession\<close>, \<open>SetClient\<close>, \<open>Delete\<close>,
  \<open>Range\<close>) and the two session helpers \<open>SessionExpired\<close> and \<open>refreshExpiryTime\<close> are
  not among the source files. The spec describes a registry mapping session token to
  session state with existence checks, creation of fresh unique tokens with an initial
  expiry, binding of a connection, idempotent removal and iteration over a snapshot with a
  visitor that answers whether to continue; the expiry is a sliding deadline. The registry
  is the list of its sessions in the order \<open>Range\<close> visits them; the clock reading \<open>now\<close>
  and the time to live \<open>ttl\<close> are parameters, and so are the candidates \<open>cands\<close> that
  token generation draws, one for each retry.
\<close>

definition SessionExpired :: "nat \<Rightarrow> Session \<Rightarrow> bool" where
  \<comment> \<open>Modelled from the spec: \<open>Session.SessionExpired\<close> is missing; the sliding deadline has
      lapsed when it lies before the clock reading.\<close>
  "SessionExpired now ctx = (expireTime ctx < now)"

definition refreshExpiryTime :: "nat \<Rightarrow> nat \<Rightarrow> nat" where
  \<comment> \<open>Modelled from the spec: \<open>refreshExpiryTime\<close> is missing; the deadline is pushed to the
      clock reading plus the time to live.\<close>
  "refreshExpiryTime now ttl = now + ttl"

definition Exists :: "Session list \<Rightarrow> SessionToken \<Rightarrow> bool" where
  \<comment> \<open>Modelled from the spec: \<open>SessionStore.Exists\<close> is missing; an existence check.\<close>
  "Exists ss token = (token \<in> set (map Token ss))"

definition Delete :: "SessionToken \<Rightarrow> Session list \<Rightarrow> Session list" where
  \<comment> \<open>Modelled from the spec: \<open>SessionStore.Delete\<close> is missing; removes a session, idempotent.\<close>
  "Delete token ss = filter (\<lambda>s. Token s \<noteq> token) ss"

definition SetClient :: "SessionToken \<Rightarrow> nat \<Rightarrow> Session list \<Rightarrow> Session list" where
  \<comment> \<open>Modelled from the spec: \<open>SessionStore.SetClient\<close> is missing; associates a connection
      with the session filed under the token.\<close>
  "SetClient token c ss = map (\<lambda>s. if Token s = token then s\<lparr>Client := Some c\<rparr> else s) ss"

definition NewSession ::
  "SessionToken list \<Rightarrow> nat \<Rightarrow> nat \<Rightarrow> Session list \<Rightarrow> SessionToken \<times> bool \<times> Session list" where
  \<comment> \<open>Modelled from the spec: \<open>SessionStore.NewSession\<close> is missing; mints a fresh unique
      token with an initial expiry and fails only when every draw is taken. The result is
      the token, whether an error is returned, and the registry afterwards.\<close>
  "NewSession cands now ttl ss =
     (case find (\<lambda>t. \<not> Exists ss t) cands of
        Some t \<Rightarrow> (t, False,
                   ss @ [\<lparr>Token = t, Client = None, expireTime = refreshExpiryTime now ttl\<rparr>])
      | None \<Rightarrow> ([], True, ss))"

fun Range_sessions :: "('v \<Rightarrow> 'st \<Rightarrow> failure + (bool \<times> 'st)) \<Rightarrow> 'v list \<Rightarrow> 'st \<Rightarrow> failure + 'st" where
  \<comment> \<open>Modelled from the spec: \<open>SessionStore.Range\<close> is missing; it iterates a snapshot of
      the sessions and invokes the visitor, whose boolean answers whether to continue.\<close>
  "Range_sessions f [] st = Inr st"
| "Range_sessions f (x # xs) st =
     (case f x st of
        Inl p \<Rightarrow> Inl p
      | Inr (continue, st') \<Rightarrow> if continue then Range_sessions f xs st' else Inr st')"

section \<open>The hub (streams.go, Server)\<close>

record Server =
  sessions :: "Session list"
  clients :: "nat \<Rightarrow> Client"

text \<open>The four counters that \<open>broadcastAll\<close> logs after the sweep.\<close>

record counts =
  expiredSessionCount :: nat
  closedClientCount :: nat
  refreshedClientCount :: nat
  messagesSent :: nat

definition no_counts :: counts where
  "no_counts = \<lparr>expiredSessionCount = 0, closedClientCount = 0,
                 refreshedClientCount = 0, messagesSent = 0\<rparr>"

definition set_expireTime :: "SessionToken \<Rightarrow> nat \<Rightarrow> Session list \<Rightarrow> Session list" where
  \<comment> \<open>\<open>ctx.expireTime = t\<close>, through the pointer the registry holds under the token.\<close>
  "set_expireTime token t ss = map (\<lambda>s. if Token s = token then s\<lparr>expireTime := t\<rparr> else s) ss"

definition force_close :: "Client \<Rightarrow> failure + Client" where
  \<comment> \<open>The default branch: \<open>close(ctx.Client.send); close(ctx.Client.sendToken)\<close>.\<close>
  "force_close cl =
     (case close_chan (send cl) of
        Inl f \<Rightarrow> Inl f
      | Inr s \<Rightarrow>
          (case close_chan (sendToken cl) of
             Inl f \<Rightarrow> Inl f
           | Inr t \<Rightarrow> Inr (cl\<lparr>send := s, sendToken := t\<rparr>)))"

definition visit ::
  "nat \<Rightarrow> nat \<Rightarrow> bytes \<Rightarrow> Session \<Rightarrow> Server \<times> counts \<Rightarrow> failure + (bool \<times> Server \<times> counts)" where
  \<comment> \<open>The function literal passed to \<open>Range\<close>; the boolean is its return value.\<close>
  "visit now ttl message ctx st =
     (let svr = fst st; n = snd st in
      if SessionExpired now ctx then
        Inr (True, svr\<lparr>sessions := Delete (Token ctx) (sessions svr)\<rparr>,
             n\<lparr>expiredSessionCount := expiredSessionCount n + 1\<rparr>)
      else
        (case Client ctx of
           None \<Rightarrow> Inl NilDereference
         | Some c \<Rightarrow>
             if \<not> open (clients svr c) then
               Inr (True, svr, n\<lparr>closedClientCount := closedClientCount n + 1\<rparr>)
             else
               (let svr1 = svr\<lparr>sessions :=
                             set_expireTime (Token ctx) (refreshExpiryTime now ttl) (sessions svr)\<rparr>;
                    n1 = n\<lparr>refreshedClientCount := refreshedClientCount n + 1\<rparr>;
                    cl = clients svr1 c
                in case try_send (send cl) message of
                     Inl f \<Rightarrow> Inl f
                   | Inr (Some ch) \<Rightarrow>
                       Inr (True, svr1\<lparr>clients := (clients svr1)(c := cl\<lparr>send := ch\<rparr>)\<rparr>,
                            n1\<lparr>messagesSent := messagesSent n1 + 1\<rparr>)
                   | Inr None \<Rightarrow>
                       (case force_close cl of
                          Inl f \<Rightarrow> Inl f
                        | Inr cl' \<Rightarrow>
                            Inr (False, svr1\<lparr>clients := (clients svr1)(c := cl')\<rparr>, n1)))))"

definition broadcastAll :: "nat \<Rightarrow> nat \<Rightarrow> bytes \<Rightarrow> Server \<Rightarrow> failure + (Server \<times> counts)" where
  "broadcastAll now ttl message svr =
     Range_sessions (visit now ttl message) (sessions svr) (svr, no_counts)"

definition hub_register ::
  "nat \<Rightarrow> nat \<Rightarrow> SessionToken list \<Rightarrow> nat \<Rightarrow> Server \<Rightarrow> failure + Server" where
  \<comment> \<open>\<open>case client := <-svr.register\<close>\<close>
  "hub_register now ttl cands c svr =
     (let client = (clients svr c)\<lparr>open := True\<rparr> in
      case recv_chan [] (sendToken client) of
        Inl f \<Rightarrow> Inl f
      | Inr (token, ok, ch) \<Rightarrow>
          (let client1 = client\<lparr>sendToken := ch\<rparr>;
               exists = Exists (sessions svr) token
           in if token = ''nil'' \<or> \<not> exists then
                (case NewSession cands now ttl (sessions svr) of
                   (token', err, ss') \<Rightarrow>
                     (case send_chan (sendToken client1) token' of
                        Inl f \<Rightarrow> Inl f
                      | Inr ch' \<Rightarrow>
                          Inr (svr\<lparr>sessions := SetClient token' c ss',
                                   clients := (clients svr)(c := client1\<lparr>sendToken := ch'\<rparr>)\<rparr>)))
              else
                Inr (svr\<lparr>sessions := SetClient token c (sessions svr),
                         clients := (clients svr)(c := client1)\<rparr>)))"

definition hub_unregister :: "nat \<Rightarrow> Server \<Rightarrow> failure + Server" where
  \<comment> \<open>\<open>case client := <-svr.unregister\<close>\<close>
  "hub_unregister c svr =
     (let client = clients svr c in
      if open client then
        (case force_close (client\<lparr>open := False\<rparr>) of
           Inl f \<Rightarrow> Inl f
         | Inr client' \<Rightarrow> Inr (svr\<lparr>clients := (clients svr)(c := client')\<rparr>))
      else Inr svr)"

text \<open>
  What the \<open>select\<close> of \<open>Run\<close> receives: a registration (with the candidates the token
  generator would draw), an unregistration, or a message to broadcast; each with the clock
  reading at that moment. \<open>Run\<close> handles them one after the other and dies with the first
  panic.
\<close>

datatype event =
    Register nat "SessionToken list"
  | Unregister nat
  | Broadcast bytes

fun Run_step :: "nat \<Rightarrow> nat \<times> event \<Rightarrow> Server \<Rightarrow> failure + Server" where
  "Run_step ttl (now, Register c cands) svr = hub_register now ttl cands c svr"
| "Run_step ttl (now, Unregister c) svr = hub_unregister c svr"
| "Run_step ttl (now, Broadcast message) svr =
     (case broadcastAll now ttl message svr of Inl f \<Rightarrow> Inl f | Inr (svr', n) \<Rightarrow> Inr svr')"

fun Run :: "nat \<Rightarrow> (nat \<times> event) list \<Rightarrow> Server \<Rightarrow> failure + Server" where
  "Run ttl [] svr = Inr svr"
| "Run ttl (e # es) svr =
     (case Run_step ttl e svr of Inl f \<Rightarrow> Inl f | Inr svr' \<Rightarrow> Run ttl es svr')"

section \<open>The write pump (client.go)\<close>

text \<open>
  What reaches the transport: text frames with their payload, the close frame and the
  ping frame. \<open>Conn\<close> keeps the frames handed to the transport, oldest first, and whether
  \<open>conn.Close()\<close> has run.
\<close>

datatype frame = TextMessage bytes | CloseMessage | PingMessage

record Conn =
  wire :: "frame list"
  connClosed :: bool

text \<open>
  One turn of the pump's \<open>select\<close>: the case Go picks among those that can proceed (it
  picks any of them when several can), and whether the transport fails in
  \<open>NextWriter\<close>, in the \<open>Close\<close> of the writer that flushes the frame, or in the
  \<open>WriteMessage\<close> of a ping.
\<close>

datatype select_case = CaseSend | CaseSendToken | CaseTicker

record turn =
  chosen :: select_case
  nextWriterErr :: bool
  flushErr :: bool
  pingErr :: bool

fun drain :: "nat \<Rightarrow> bytes chan \<Rightarrow> bytes \<Rightarrow> failure + (bytes \<times> bytes chan)" where
  \<comment> \<open>\<open>for i := 0; i < n; i++ { w.Write(newline); w.Write(<-c.send) }\<close>, on the bytes
      written to \<open>w\<close> so far.\<close>
  "drain 0 ch w = Inr (w, ch)"
| "drain (Suc i) ch w =
     (case recv_chan [] ch of
        Inl f \<Rightarrow> Inl f
      | Inr (m, ok, ch') \<Rightarrow> drain i ch' (w @ newline @ m))"

definition writePump_turn :: "turn \<Rightarrow> Client \<times> Conn \<Rightarrow> failure + (bool \<times> Client \<times> Conn)" where
  \<comment> \<open>One pass through the loop body; the boolean says whether the loop goes on
      (\<open>False\<close>: the function returns). A case that cannot proceed is \<open>WouldBlock\<close>.\<close>
  "writePump_turn t st =
     (let c = fst st; conn = snd st in
      case chosen t of
        CaseSend \<Rightarrow>
          (case recv_chan [] (send c) of
             Inl f \<Rightarrow> Inl f
           | Inr (message, ok, ch) \<Rightarrow>
               if \<not> ok then Inr (False, c\<lparr>send := ch\<rparr>, conn)
               else if nextWriterErr t then Inr (False, c\<lparr>send := ch\<rparr>, conn)
               else
                 (case drain (length (buf ch)) ch message of
                    Inl f \<Rightarrow> Inl f
                  | Inr (w, ch') \<Rightarrow>
                      if flushErr t then Inr (False, c\<lparr>send := ch'\<rparr>, conn)
                      else Inr (True, c\<lparr>send := ch'\<rparr>,
                                conn\<lparr>wire := wire conn @ [TextMessage w]\<rparr>)))
      | CaseSendToken \<Rightarrow>
          (case recv_chan [] (sendToken c) of
             Inl f \<Rightarrow> Inl f
           | Inr (token, ok, ch) \<Rightarrow>
               if \<not> ok then
                 Inr (False, c\<lparr>sendToken := ch\<rparr>, conn\<lparr>wire := wire conn @ [CloseMessage]\<rparr>)
               else if nextWriterErr t then Inr (False, c\<lparr>sendToken := ch\<rparr>, conn)
               else
                 (case drain (length (buf ch)) ch token of
                    Inl f \<Rightarrow> Inl f
                  | Inr (w, ch') \<Rightarrow>
                      if flushErr t then Inr (False, c\<lparr>sendToken := ch'\<rparr>, conn)
                      else Inr (True, c\<lparr>sendToken := ch'\<rparr>,
                                conn\<lparr>wire := wire conn @ [TextMessage w]\<rparr>)))
      | CaseTicker \<Rightarrow>
          if pingErr t then Inr (False, c, conn)
          else Inr (True, c, conn\<lparr>wire := wire conn @ [PingMessage]\<rparr>))"

fun writePump :: "turn list \<Rightarrow> Client \<times> Conn \<Rightarrow> failure + (bool \<times> Client \<times> Conn)" where
  \<comment> \<open>The loop, driven by the turns of its \<open>select\<close>. The boolean says whether the pump
      has returned; on return the deferred function closes the transport.\<close>
  "writePump [] st = Inr (False, st)"
| "writePump (t # ts) st =
     (case writePump_turn t st of
        Inl f \<Rightarrow> Inl f
      | Inr (continue, c, conn) \<Rightarrow>
          if continue then writePump ts (c, conn)
          else Inr (True, c, conn\<lparr>connClosed := True\<rparr>))"

section \<open>The hub and one write pump side by side\<close>

text \<open>
  The hub and the pump of the client at address \<open>c\<close> run concurrently and meet only in
  the client's two queues. A schedule lists, in the order they happen, the events the
  hub handles and the turns the pump takes. \<open>serveWs\<close> starts the pumps once the
  client's \<open>start\<close> channel is signalled; no source file shows who signals it, so when
  the pump takes its first turn is left to the schedule.
\<close>

datatype action = Hub nat event | Pump turn

fun system_step :: "nat \<Rightarrow> nat \<Rightarrow> action \<Rightarrow> Server \<times> Conn \<Rightarrow> failure + (Server \<times> Conn)" where
  "system_step ttl c (Hub now e) (svr, conn) =
     (case Run_step ttl (now, e) svr of Inl f \<Rightarrow> Inl f | Inr svr' \<Rightarrow> Inr (svr', conn))"
| "system_step ttl c (Pump t) (svr, conn) =
     (case writePump_turn t (clients svr c, conn) of
        Inl f \<Rightarrow> Inl f
      | Inr (continue, cl, conn') \<Rightarrow> Inr (svr\<lparr>clients := (clients svr)(c := cl)\<rparr>, conn'))"

fun system_run ::
  "nat \<Rightarrow> nat \<Rightarrow> action list \<Rightarrow> Server \<times> Conn \<Rightarrow> failure + (Server \<times> Conn)" where
  "system_run ttl c [] st = Inr st"
| "system_run ttl c (a # as) st =
     (case system_step ttl c a st of Inl f \<Rightarrow> Inl f | Inr st' \<Rightarrow> system_run ttl c as st')"

section \<open>Notions used in the statements\<close>

text \<open>
  A session to which a sweep delivers without fail. Beyond being unexpired, bound to a
  client that is marked open, and under capacity, this asks that the message queue has
  not been closed. The last condition is a separate one: the force-close of a sweep
  closes the queues and leaves the client marked open.
\<close>

definition deliverable :: "nat \<Rightarrow> Server \<Rightarrow> Session \<Rightarrow> bool" where
  "deliverable now svr s =
     (\<not> SessionExpired now s \<and>
      (case Client s of
         None \<Rightarrow> False
       | Some c \<Rightarrow> open (clients svr c) \<and> \<not> closed (send (clients svr c))
                   \<and> length (buf (send (clients svr c))) < cap (send (clients svr c))))"

text \<open>The client with one more message at the end of its message queue.\<close>

definition enqueue :: "bytes \<Rightarrow> Client \<Rightarrow> Client" where
  "enqueue message cl = cl\<lparr>send := (send cl)\<lparr>buf := buf (send cl) @ [message]\<rparr>\<rparr>"


section \<open>Properties of OpenStreamsList\<close>

lemma Delete_osl_length: "length_osl (Delete_osl token osl) = length_osl osl - 1"
  by (simp add: Delete_osl_def)

lemma Delete_osl_absent_streams:
  "streams osl token = None \<Longrightarrow> streams (Delete_osl token osl) = streams osl"
  by (auto simp: Delete_osl_def)

lemma sint_decrement:
  assumes "sint (x :: 64 word) \<noteq> - (2 ^ 63)"
  shows "sint (x - 1) = sint x - 1"
proof -
  have lo: "- (2 ^ 63) \<le> sint x" using sint_ge [of x] by simp
  have hi: "sint x < 2 ^ 63" using sint_lt [of x] by simp
  have "sint (x - 1) = signed_take_bit 63 (sint x - 1)"
    by (simp add: sint_word_diff)
  also have "\<dots> = sint x - 1"
    using lo hi assms by (intro signed_take_bit_int_eq_self) simp_all
  finally show ?thesis .
qed

lemma sint_decrement_min:
  "sint (x :: 64 word) = - (2 ^ 63) \<Longrightarrow> sint (x - 1) = 2 ^ 63 - 1"
proof -
  assume a: "sint x = - (2 ^ 63)"
  have "x = word_of_int (sint x)" by simp
  with a have "x = word_of_int (- (2 ^ 63))" by simp
  then show ?thesis by simp
qed

text \<open>
  Claim C10. \<open>Delete\<close> decrements the length counter of every registry, whether or not
  the token is present: the counter afterwards is the counter before minus one (as a
  signed number, one less, except at the least value of a 64-bit \<open>int\<close>, where it wraps
  to the greatest), and for an absent token the map is left as it was. So deleting from a
  registry whose counter is 0 makes the counter \<open>-1\<close> and \<open>IsEmpty\<close> false; in particular
  deleting any token from a freshly made registry leaves a map without entries, a counter
  of \<open>-1\<close>, and \<open>IsEmpty\<close> answering false.
\<close>

theorem Delete_decrements_even_when_absent:
  "length_osl (Delete_osl token osl) = length_osl osl - 1
   \<and> (streams osl token = None \<longrightarrow> streams (Delete_osl token osl) = streams osl)
   \<and> (sint (length_osl osl) \<noteq> - (2 ^ 63) \<longrightarrow>
        sint (length_osl (Delete_osl token osl)) = sint (length_osl osl) - 1)
   \<and> (sint (length_osl osl) = - (2 ^ 63) \<longrightarrow>
        sint (length_osl (Delete_osl token osl)) = 2 ^ 63 - 1)
   \<and> (IsEmpty_osl osl \<longrightarrow>
        sint (length_osl (Delete_osl token osl)) = - 1 \<and> \<not> IsEmpty_osl (Delete_osl token osl))
   \<and> \<not> Exists_osl (NewOpenStreamsList :: 'ac OpenStreamsList) token
   \<and> IsEmpty_osl (NewOpenStreamsList :: 'ac OpenStreamsList)
   \<and> sint (length_osl (Delete_osl token (NewOpenStreamsList :: 'ac OpenStreamsList))) = - 1
   \<and> streams (Delete_osl token (NewOpenStreamsList :: 'ac OpenStreamsList)) = Map.empty
   \<and> \<not> IsEmpty_osl (Delete_osl token (NewOpenStreamsList :: 'ac OpenStreamsList))"
proof (intro conjI impI)
  show "length_osl (Delete_osl token osl) = length_osl osl - 1"
    by (simp add: Delete_osl_def)
  show "streams (Delete_osl token osl) = streams osl" if "streams osl token = None"
    using that by (auto simp: Delete_osl_def)
  show "sint (length_osl (Delete_osl token osl)) = sint (length_osl osl) - 1"
    if "sint (length_osl osl) \<noteq> - (2 ^ 63)"
    using sint_decrement [OF that] by (simp add: Delete_osl_def)
  show "sint (length_osl (Delete_osl token osl)) = 2 ^ 63 - 1"
    if "sint (length_osl osl) = - (2 ^ 63)"
    using sint_decrement_min [OF that] by (simp add: Delete_osl_def)
  show "sint (length_osl (Delete_osl token osl)) = - 1" if "IsEmpty_osl osl"
    using that by (simp add: Delete_osl_def IsEmpty_osl_def split: if_splits)
  show "\<not> IsEmpty_osl (Delete_osl token osl)" if "IsEmpty_osl osl"
    using that by (simp add: Delete_osl_def IsEmpty_osl_def split: if_splits)
  show "\<not> Exists_osl (NewOpenStreamsList :: 'ac OpenStreamsList) token"
    by (simp add: Exists_osl_def NewOpenStreamsList_def)
  show "IsEmpty_osl (NewOpenStreamsList :: 'ac OpenStreamsList)"
    by (simp add: IsEmpty_osl_def NewOpenStreamsList_def)
  show "sint (length_osl (Delete_osl token (NewOpenStreamsList :: 'ac OpenStreamsList))) = - 1"
    by (simp add: Delete_osl_def NewOpenStreamsList_def)
  show "streams (Delete_osl token (NewOpenStreamsList :: 'ac OpenStreamsList)) = Map.empty"
    by (simp add: Delete_osl_def NewOpenStreamsList_def)
  show "\<not> IsEmpty_osl (Delete_osl token (NewOpenStreamsList :: 'ac OpenStreamsList))"
    by (simp add: Delete_osl_def NewOpenStreamsList_def IsEmpty_osl_def)
qed

text \<open>
  Deleting the absent token \<open>''b''\<close>: from a registry that holds only \<open>''a''\<close> (the counter
  goes from 1 to 0 and \<open>IsEmpty\<close> answers true although \<open>''a''\<close> is still there), from a
  freshly made registry (the counter becomes \<open>-1\<close>), and from a registry whose counter is
  the least 64-bit value (the counter wraps to the greatest).
\<close>

theorem Delete_decrements_even_when_absent_witness:
  "streams (Add_osl ''a'' () NewOpenStreamsList) ''b'' = None
   \<and> sint (length_osl (Add_osl ''a'' () NewOpenStreamsList)) = 1
   \<and> sint (length_osl (Delete_osl ''b'' (Add_osl ''a'' () NewOpenStreamsList))) = 0
   \<and> streams (Delete_osl ''b'' (Add_osl ''a'' () NewOpenStreamsList)) ''a'' = Some ()
   \<and> IsEmpty_osl (Delete_osl ''b'' (Add_osl ''a'' () NewOpenStreamsList))
   \<and> IsEmpty_osl (NewOpenStreamsList :: unit OpenStreamsList)
   \<and> sint (length_osl (Delete_osl ''b'' (NewOpenStreamsList :: unit OpenStreamsList))) = - 1
   \<and> \<not> IsEmpty_osl (Delete_osl ''b'' (NewOpenStreamsList :: unit OpenStreamsList))
   \<and> sint (length_osl (Delete_osl ''b''
          \<lparr>streams = Map.empty, length_osl = word_of_int (- (2 ^ 63))\<rparr>)) = 2 ^ 63 - 1"
  using Delete_decrements_even_when_absent [of "''b''" "Add_osl ''a'' () NewOpenStreamsList"]
    Delete_decrements_even_when_absent [of "''b''" "NewOpenStreamsList :: unit OpenStreamsList"]
    Delete_decrements_even_when_absent [of "''b''"
      "\<lparr>streams = Map.empty, length_osl = word_of_int (- (2 ^ 63))\<rparr> :: unit OpenStreamsList"]
  by (simp add: Add_osl_def Delete_osl_def NewOpenStreamsList_def IsEmpty_osl_def)

section \<open>The session store: helper lemmas\<close>

lemma map_Token_SetClient: "map Token (SetClient t c ss) = map Token ss"
  by (induction ss) (simp_all add: SetClient_def)

lemma Exists_SetClient: "Exists (SetClient t c ss) x = Exists ss x"
  by (simp add: Exists_def map_Token_SetClient)

lemma SetClient_bound: "s \<in> set (SetClient t c ss) \<Longrightarrow> Token s = t \<Longrightarrow> Client s = Some c"
  unfolding SetClient_def set_map by (erule imageE) (simp split: if_splits)

lemma find_Some_holds: "find P xs = Some x \<Longrightarrow> P x \<and> x \<in> set xs"
  by (induction xs) (auto split: if_splits)

lemma NewSession_cases:
  assumes "NewSession cands now ttl ss = (t', err, ss')"
  shows "(err \<and> t' = [] \<and> ss' = ss)
   \<or> (\<not> err \<and> \<not> Exists ss t' \<and> t' \<in> set cands
        \<and> ss' = ss @ [\<lparr>Token = t', Client = None, expireTime = refreshExpiryTime now ttl\<rparr>])"
proof (cases "find (\<lambda>t. \<not> Exists ss t) cands")
  case None
  with assms show ?thesis by (simp add: NewSession_def)
next
  case (Some t)
  from find_Some_holds [OF Some] have "\<not> Exists ss t" "t \<in> set cands" by simp_all
  with assms Some show ?thesis by (auto simp: NewSession_def)
qed

lemma map_Token_set_expireTime: "map Token (set_expireTime t e ss) = map Token ss"
  by (induction ss) (simp_all add: set_expireTime_def)

lemma map_Client_set_expireTime: "map Client (set_expireTime t e ss) = map Client ss"
  by (induction ss) (simp_all add: set_expireTime_def)



section \<open>The sweep: helper lemmas\<close>





lemma visit_deliver:
  assumes "deliverable now svr x" and "Client x = Some c"
  shows "visit now ttl message x (svr, n) =
           Inr (True,
                svr\<lparr>sessions := set_expireTime (Token x) (refreshExpiryTime now ttl) (sessions svr),
                    clients := (clients svr)(c := enqueue message (clients svr c))\<rparr>,
                n\<lparr>refreshedClientCount := refreshedClientCount n + 1,
                  messagesSent := messagesSent n + 1\<rparr>)"
  using assms by (simp add: visit_def deliverable_def try_send_def enqueue_def Let_def)

lemma Range_visit_deliver:
  assumes "distinct (map Client xs)" and "list_all (deliverable now svr) xs"
  shows "\<exists>svr' n'. Range_sessions (visit now ttl message) xs (svr, n) = Inr (svr', n')
           \<and> messagesSent n' = messagesSent n + length xs
           \<and> refreshedClientCount n' = refreshedClientCount n + length xs
           \<and> expiredSessionCount n' = expiredSessionCount n
           \<and> closedClientCount n' = closedClientCount n
           \<and> map Token (sessions svr') = map Token (sessions svr)
           \<and> map Client (sessions svr') = map Client (sessions svr)
           \<and> (\<forall>c. clients svr' c =
                 (if Some c \<in> set (map Client xs) then enqueue message (clients svr c)
                  else clients svr c))"
  using assms
proof (induction xs arbitrary: svr n)
  case Nil
  then show ?case by simp
next
  case (Cons x xs)
  from Cons.prems have dx: "deliverable now svr x" by simp
  then obtain c where c: "Client x = Some c"
    by (cases "Client x") (simp_all add: deliverable_def)
  let ?svr1 = "svr\<lparr>sessions := set_expireTime (Token x) (refreshExpiryTime now ttl) (sessions svr),
                    clients := (clients svr)(c := enqueue message (clients svr c))\<rparr>"
  let ?n1 = "n\<lparr>refreshedClientCount := refreshedClientCount n + 1,
                  messagesSent := messagesSent n + 1\<rparr>"
  have v: "visit now ttl message x (svr, n) = Inr (True, ?svr1, ?n1)"
    by (rule visit_deliver [OF dx c])
  from Cons.prems c have notin: "Some c \<notin> set (map Client xs)" and dist: "distinct (map Client xs)"
    by simp_all
  have rest: "list_all (deliverable now ?svr1) xs"
    unfolding list_all_iff
  proof
    fix s assume s: "s \<in> set xs"
    with Cons.prems have ds: "deliverable now svr s" by (simp add: list_all_iff)
    from s notin have "Client s \<noteq> Some c" by force
    with ds show "deliverable now ?svr1 s"
      by (cases "Client s") (simp_all add: deliverable_def)
  qed
  from Cons.IH [OF dist rest, of ?n1] obtain svr' n' where
    r: "Range_sessions (visit now ttl message) xs (?svr1, ?n1) = Inr (svr', n')"
    and m: "messagesSent n' = messagesSent ?n1 + length xs"
    and f: "refreshedClientCount n' = refreshedClientCount ?n1 + length xs"
    and e: "expiredSessionCount n' = expiredSessionCount ?n1"
    and k: "closedClientCount n' = closedClientCount ?n1"
    and t: "map Token (sessions svr') = map Token (sessions ?svr1)"
    and b: "map Client (sessions svr') = map Client (sessions ?svr1)"
    and h: "\<forall>c'. clients svr' c' =
                 (if Some c' \<in> set (map Client xs) then enqueue message (clients ?svr1 c')
                  else clients ?svr1 c')"
    by blast
  have r': "Range_sessions (visit now ttl message) (x # xs) (svr, n) = Inr (svr', n')"
    using v r by simp
  have h': "\<forall>c'. clients svr' c' =
                 (if Some c' \<in> set (map Client (x # xs)) then enqueue message (clients svr c')
                  else clients svr c')"
  proof
    fix c'
    show "clients svr' c' =
                 (if Some c' \<in> set (map Client (x # xs)) then enqueue message (clients svr c')
                  else clients svr c')"
    proof (cases "c' = c")
      case True
      with h notin c show ?thesis by simp
    next
      case False
      with h c show ?thesis by simp
    qed
  qed
  show ?case
    apply (rule exI [of _ svr'], rule exI [of _ n'])
    using r' m f e k t b h'
    by (simp add: map_Token_set_expireTime map_Client_set_expireTime)
qed

section \<open>The write pump and single visits: helper lemmas\<close>

lemma drain_queued:
  "buf ch = ms @ later \<Longrightarrow>
   drain (length ms) ch w = Inr (w @ concat (map (\<lambda>m. newline @ m) ms), ch\<lparr>buf := later\<rparr>)"
proof (induction ms arbitrary: ch w)
  case Nil
  then show ?case by simp
next
  case (Cons m ms)
  have "drain (length ms) (ch\<lparr>buf := ms @ later\<rparr>) (w @ newline @ m) =
        Inr ((w @ newline @ m) @ concat (map (\<lambda>m. newline @ m) ms), ch\<lparr>buf := ms @ later, buf := later\<rparr>)"
    by (rule Cons.IH) simp
  with Cons.prems show ?case
    by (simp add: recv_chan_def)
qed

lemma writePump_turn_send:
  assumes "chosen t = CaseSend" and "buf (send c) = m # ms"
    and "\<not> nextWriterErr t" and "\<not> flushErr t"
  shows "writePump_turn t (c, conn) =
           Inr (True, c\<lparr>send := (send c)\<lparr>buf := []\<rparr>\<rparr>,
                conn\<lparr>wire := wire conn @ [TextMessage (m @ concat (map (\<lambda>x. newline @ x) ms))]\<rparr>)"
proof -
  have d: "drain (length ms) ((send c)\<lparr>buf := ms\<rparr>) m =
           Inr (m @ concat (map (\<lambda>x. newline @ x) ms), (send c)\<lparr>buf := ms, buf := []\<rparr>)"
    by (rule drain_queued) simp
  show ?thesis
    using assms d by (simp add: writePump_turn_def recv_chan_def)
qed


lemma visit_expired:
  "SessionExpired now ctx \<Longrightarrow>
   visit now ttl message ctx (svr, n) =
     Inr (True, svr\<lparr>sessions := Delete (Token ctx) (sessions svr)\<rparr>,
          n\<lparr>expiredSessionCount := expiredSessionCount n + 1\<rparr>)"
  by (simp add: visit_def)

lemma visit_not_open:
  "\<not> SessionExpired now ctx \<Longrightarrow> Client ctx = Some c \<Longrightarrow> \<not> open (clients svr c) \<Longrightarrow>
   visit now ttl message ctx (svr, n) =
     Inr (True, svr, n\<lparr>closedClientCount := closedClientCount n + 1\<rparr>)"
  by (simp add: visit_def)

lemma visit_full_queue:
  assumes "\<not> SessionExpired now ctx" and "Client ctx = Some c" and "open (clients svr c)"
    and "\<not> closed (send (clients svr c))" and "\<not> closed (sendToken (clients svr c))"
    and "\<not> length (buf (send (clients svr c))) < cap (send (clients svr c))"
  shows "visit now ttl message ctx (svr, n) =
     Inr (False,
          svr\<lparr>sessions := set_expireTime (Token ctx) (refreshExpiryTime now ttl) (sessions svr),
              clients := (clients svr)(c := (clients svr c)
                \<lparr>send := (send (clients svr c))\<lparr>closed := True\<rparr>,
                 sendToken := (sendToken (clients svr c))\<lparr>closed := True\<rparr>\<rparr>)\<rparr>,
          n\<lparr>refreshedClientCount := refreshedClientCount n + 1\<rparr>)"
  using assms by (simp add: visit_def Let_def try_send_def force_close_def close_chan_def)

lemma visit_closed_queue:
  assumes "\<not> SessionExpired now ctx" and "Client ctx = Some c" and "open (clients svr c)"
    and "closed (send (clients svr c))"
  shows "visit now ttl message ctx (svr, n) = Inl SendOnClosedChannel"
  using assms by (simp add: visit_def Let_def try_send_def)

lemma Range_sessions_stops:
  "f x st = Inr (False, st') \<Longrightarrow> Range_sessions f (x # xs) st = Inr st'"
  by simp

lemma hub_unregister_not_open: "\<not> open (clients svr c) \<Longrightarrow> hub_unregister c svr = Inr svr"
  by (simp add: hub_unregister_def Let_def)

lemma hub_unregister_open:
  assumes "open (clients svr c)" and "\<not> closed (send (clients svr c))"
    and "\<not> closed (sendToken (clients svr c))"
  shows "hub_unregister c svr =
     Inr (svr\<lparr>clients := (clients svr)(c := (clients svr c)
            \<lparr>open := False, send := (send (clients svr c))\<lparr>closed := True\<rparr>,
             sendToken := (sendToken (clients svr c))\<lparr>closed := True\<rparr>\<rparr>)\<rparr>)"
  using assms by (simp add: hub_unregister_def Let_def force_close_def close_chan_def)

lemma hub_register_keeps_tokens:
  assumes "hub_register now ttl cands c svr = Inr svr'"
  shows "\<exists>ts. map Token (sessions svr') = map Token (sessions svr) @ ts"
proof -
  obtain t' err ss' where ns: "NewSession cands now ttl (sessions svr) = (t', err, ss')"
    by (cases "NewSession cands now ttl (sessions svr)") auto
  from assms ns
  have "sessions svr' = SetClient t' c ss' \<or> (\<exists>t. sessions svr' = SetClient t c (sessions svr))"
    by (auto simp: hub_register_def Let_def split: sum.splits prod.splits if_splits)
  then show ?thesis
  proof
    assume eq: "sessions svr' = SetClient t' c ss'"
    from NewSession_cases [OF ns] have "\<exists>ts. map Token ss' = map Token (sessions svr) @ ts"
      by auto
    with eq show ?thesis by (simp add: map_Token_SetClient)
  next
    assume "\<exists>t. sessions svr' = SetClient t c (sessions svr)"
    then have "map Token (sessions svr') = map Token (sessions svr) @ []"
      by (auto simp: map_Token_SetClient)
    then show ?thesis by blast
  qed
qed

lemma hub_unregister_keeps_sessions:
  "hub_unregister c svr = Inr svr' \<Longrightarrow> sessions svr' = sessions svr"
  by (auto simp: hub_unregister_def Let_def split: if_splits sum.splits)

section \<open>Reaching a stalled client\<close>

text \<open>
  The hub states used below arise from a hub without sessions by the events \<open>Run\<close>
  handles. A client connects with \<open>''nil''\<close> and is registered; while its pump writes
  nothing, 1024 broadcasts fill its message queue to the capacity, each of them
  refreshing the deadline of its session. Sessions whose clients are not marked open are
  passed over by these sweeps.
\<close>

lemma Run_append:
  "Run ttl (es @ fs) svr =
     (case Run ttl es svr of Inl f \<Rightarrow> Inl f | Inr svr' \<Rightarrow> Run ttl fs svr')"
  by (induction es arbitrary: svr) (simp_all split: sum.splits)

lemma Range_sessions_skip:
  assumes "list_all (\<lambda>r. \<not> SessionExpired now r
             \<and> (case Client r of None \<Rightarrow> False | Some c' \<Rightarrow> \<not> open (clients svr c'))) rest"
  shows "Range_sessions (visit now ttl m) rest (svr, n) =
           Inr (svr, n\<lparr>closedClientCount := closedClientCount n + length rest\<rparr>)"
  using assms
proof (induction rest arbitrary: n)
  case Nil
  then show ?case by simp
next
  case (Cons r rest)
  from Cons.prems obtain c' where c': "Client r = Some c'" and o: "\<not> open (clients svr c')"
    and e: "\<not> SessionExpired now r"
    by (cases "Client r") simp_all
  have v: "visit now ttl m r (svr, n) =
     Inr (True, svr, n\<lparr>closedClientCount := closedClientCount n + 1\<rparr>)"
    by (rule visit_not_open [OF e c' o])
  from Cons.prems have "list_all (\<lambda>r. \<not> SessionExpired now r
             \<and> (case Client r of None \<Rightarrow> False | Some c' \<Rightarrow> \<not> open (clients svr c'))) rest"
    by simp
  from Cons.IH [OF this, of "n\<lparr>closedClientCount := closedClientCount n + 1\<rparr>"] v
  show ?case by simp
qed

lemma broadcastAll_one_live:
  assumes s: "Client s = Some c" "\<not> SessionExpired now s" "open (h c)"
    "\<not> closed (send (h c))" "length (buf (send (h c))) < cap (send (h c))"
    and rest: "list_all (\<lambda>r. Token r \<noteq> Token s \<and> \<not> SessionExpired now r
             \<and> (case Client r of None \<Rightarrow> False | Some c' \<Rightarrow> c' \<noteq> c \<and> \<not> open (h c'))) rest"
  shows "broadcastAll now ttl m \<lparr>sessions = s # rest, clients = h\<rparr> =
           Inr (\<lparr>sessions = s\<lparr>expireTime := refreshExpiryTime now ttl\<rparr> # rest,
                 clients = h(c := enqueue m (h c))\<rparr>,
                \<lparr>expiredSessionCount = 0, closedClientCount = length rest,
                 refreshedClientCount = 1, messagesSent = 1\<rparr>)"
proof -
  let ?svr = "\<lparr>sessions = s # rest, clients = h\<rparr>"
  let ?svr1 = "\<lparr>sessions = s\<lparr>expireTime := refreshExpiryTime now ttl\<rparr> # rest,
                 clients = h(c := enqueue m (h c))\<rparr>"
  let ?n1 = "\<lparr>expiredSessionCount = 0, closedClientCount = 0,
                 refreshedClientCount = 1, messagesSent = 1\<rparr>"
  have d: "deliverable now ?svr s" using s by (simp add: deliverable_def)
  have keep: "map (\<lambda>r. if Token r = Token s then r\<lparr>expireTime := refreshExpiryTime now ttl\<rparr> else r) rest = rest"
    using rest by (induction rest) simp_all
  have v: "visit now ttl m s (?svr, no_counts) = Inr (True, ?svr1, ?n1)"
    using visit_deliver [OF d s(1), of ttl m no_counts] keep
    by (simp add: set_expireTime_def no_counts_def)
  have "list_all (\<lambda>r. \<not> SessionExpired now r
             \<and> (case Client r of None \<Rightarrow> False | Some c' \<Rightarrow> \<not> open (clients ?svr1 c'))) rest"
    unfolding list_all_iff
  proof
    fix r assume "r \<in> set rest"
    with rest have "Token r \<noteq> Token s \<and> \<not> SessionExpired now r
             \<and> (case Client r of None \<Rightarrow> False | Some c' \<Rightarrow> c' \<noteq> c \<and> \<not> open (h c'))"
      by (simp add: list_all_iff)
    then show "\<not> SessionExpired now r
             \<and> (case Client r of None \<Rightarrow> False | Some c' \<Rightarrow> \<not> open (clients ?svr1 c'))"
      by (cases "Client r") simp_all
  qed
  from Range_sessions_skip [OF this, of ttl m ?n1] v
  show ?thesis by (simp add: broadcastAll_def)
qed

lemma broadcasts_fill_queue:
  assumes "Client s = Some c" and "\<not> SessionExpired now s" and "open (h c)"
    and "\<not> closed (send (h c))" and "length (buf (send (h c))) + k \<le> cap (send (h c))"
    and "list_all (\<lambda>r. Token r \<noteq> Token s \<and> \<not> SessionExpired now r
             \<and> (case Client r of None \<Rightarrow> False | Some c' \<Rightarrow> c' \<noteq> c \<and> \<not> open (h c'))) rest"
  shows "Run ttl (replicate k (now, Broadcast m)) \<lparr>sessions = s # rest, clients = h\<rparr> =
           Inr \<lparr>sessions = (if k = 0 then s else s\<lparr>expireTime := refreshExpiryTime now ttl\<rparr>) # rest,
                clients = h(c := (h c)\<lparr>send := (send (h c))\<lparr>buf := buf (send (h c)) @ replicate k m\<rparr>\<rparr>)\<rparr>"
  using assms
proof (induction k arbitrary: s h)
  case 0
  then show ?case by simp
next
  case (Suc k)
  let ?s1 = "s\<lparr>expireTime := refreshExpiryTime now ttl\<rparr>"
  let ?h1 = "h(c := enqueue m (h c))"
  have b: "broadcastAll now ttl m \<lparr>sessions = s # rest, clients = h\<rparr> =
           Inr (\<lparr>sessions = ?s1 # rest, clients = ?h1\<rparr>,
                \<lparr>expiredSessionCount = 0, closedClientCount = length rest,
                 refreshedClientCount = 1, messagesSent = 1\<rparr>)"
    using Suc.prems by (intro broadcastAll_one_live) simp_all
  have rest1: "list_all (\<lambda>r. Token r \<noteq> Token ?s1 \<and> \<not> SessionExpired now r
             \<and> (case Client r of None \<Rightarrow> False | Some c' \<Rightarrow> c' \<noteq> c \<and> \<not> open (?h1 c'))) rest"
    unfolding list_all_iff
  proof
    fix r assume "r \<in> set rest"
    with Suc.prems(6) have "Token r \<noteq> Token s \<and> \<not> SessionExpired now r
             \<and> (case Client r of None \<Rightarrow> False | Some c' \<Rightarrow> c' \<noteq> c \<and> \<not> open (h c'))"
      by (simp add: list_all_iff)
    then show "Token r \<noteq> Token ?s1 \<and> \<not> SessionExpired now r
             \<and> (case Client r of None \<Rightarrow> False | Some c' \<Rightarrow> c' \<noteq> c \<and> \<not> open (?h1 c'))"
      by (cases "Client r") simp_all
  qed
  have ih: "Run ttl (replicate k (now, Broadcast m)) \<lparr>sessions = ?s1 # rest, clients = ?h1\<rparr> =
           Inr \<lparr>sessions = (if k = 0 then ?s1 else ?s1\<lparr>expireTime := refreshExpiryTime now ttl\<rparr>) # rest,
                clients = ?h1(c := (?h1 c)\<lparr>send := (send (?h1 c))\<lparr>buf := buf (send (?h1 c)) @ replicate k m\<rparr>\<rparr>)\<rparr>"
    using Suc.prems(1-5) rest1
    by (intro Suc.IH) (simp_all add: enqueue_def SessionExpired_def refreshExpiryTime_def)
  have "Run ttl (replicate (Suc k) (now, Broadcast m)) \<lparr>sessions = s # rest, clients = h\<rparr> =
        Run ttl (replicate k (now, Broadcast m)) \<lparr>sessions = ?s1 # rest, clients = ?h1\<rparr>"
    using b by simp
  also note ih
  also have "Inr \<lparr>sessions = (if k = 0 then ?s1 else ?s1\<lparr>expireTime := refreshExpiryTime now ttl\<rparr>) # rest,
                clients = ?h1(c := (?h1 c)\<lparr>send := (send (?h1 c))\<lparr>buf := buf (send (?h1 c)) @ replicate k m\<rparr>\<rparr>)\<rparr>
      = (Inr \<lparr>sessions = (if Suc k = 0 then s else s\<lparr>expireTime := refreshExpiryTime now ttl\<rparr>) # rest,
                clients = h(c := (h c)\<lparr>send := (send (h c))\<lparr>buf := buf (send (h c)) @ replicate (Suc k) m\<rparr>\<rparr>)\<rparr>
          :: failure + Server)"
    by (simp add: enqueue_def)
  finally show ?case .
qed


lemma stalled_client_reachable:
  "Run 60 ((1, Register 0 [''a'']) # replicate 1024 (5, Broadcast ''x''))
    \<lparr>sessions = [],
     clients = (\<lambda>_. \<lparr>open = False, send = \<lparr>buf = [], cap = sendMsgBufferSize, closed = False\<rparr>,
                     sendToken = \<lparr>buf = [''nil''], cap = sendTokenBufferSize, closed = False\<rparr>\<rparr>)\<rparr>
   = Inr
    \<lparr>sessions = [\<lparr>Token = ''a'', Client = Some 0, expireTime = 65\<rparr>],
     clients = (\<lambda>_. \<lparr>open = False, send = \<lparr>buf = [], cap = sendMsgBufferSize, closed = False\<rparr>,
                     sendToken = \<lparr>buf = [''nil''], cap = sendTokenBufferSize, closed = False\<rparr>\<rparr>)
       (0 := \<lparr>open = True, send = \<lparr>buf = replicate 1024 ''x'', cap = sendMsgBufferSize, closed = False\<rparr>,
              sendToken = \<lparr>buf = [''a''], cap = sendTokenBufferSize, closed = False\<rparr>\<rparr>)\<rparr>"
proof -
  have reg: "Run_step 60 (1, Register 0 [''a''])
    \<lparr>sessions = [],
     clients = (\<lambda>_. \<lparr>open = False, send = \<lparr>buf = [], cap = sendMsgBufferSize, closed = False\<rparr>,
                     sendToken = \<lparr>buf = [''nil''], cap = sendTokenBufferSize, closed = False\<rparr>\<rparr>)\<rparr>
   = Inr
    \<lparr>sessions = [\<lparr>Token = ''a'', Client = Some 0, expireTime = 61\<rparr>],
     clients = (\<lambda>_. \<lparr>open = False, send = \<lparr>buf = [], cap = sendMsgBufferSize, closed = False\<rparr>,
                     sendToken = \<lparr>buf = [''nil''], cap = sendTokenBufferSize, closed = False\<rparr>\<rparr>)
       (0 := \<lparr>open = True, send = \<lparr>buf = [], cap = sendMsgBufferSize, closed = False\<rparr>,
              sendToken = \<lparr>buf = [''a''], cap = sendTokenBufferSize, closed = False\<rparr>\<rparr>)\<rparr>"
    by (simp add: hub_register_def recv_chan_def send_chan_def NewSession_def Exists_def
      SetClient_def refreshExpiryTime_def sendMsgBufferSize_def sendTokenBufferSize_def)
  have fill: "Run 60 (replicate 1024 (5, Broadcast ''x''))
    \<lparr>sessions = [\<lparr>Token = ''a'', Client = Some 0, expireTime = 61\<rparr>],
     clients = (\<lambda>_. \<lparr>open = False, send = \<lparr>buf = [], cap = sendMsgBufferSize, closed = False\<rparr>,
                     sendToken = \<lparr>buf = [''nil''], cap = sendTokenBufferSize, closed = False\<rparr>\<rparr>)
       (0 := \<lparr>open = True, send = \<lparr>buf = [], cap = sendMsgBufferSize, closed = False\<rparr>,
              sendToken = \<lparr>buf = [''a''], cap = sendTokenBufferSize, closed = False\<rparr>\<rparr>)\<rparr>
   = Inr
    \<lparr>sessions = [\<lparr>Token = ''a'', Client = Some 0, expireTime = 65\<rparr>],
     clients = (\<lambda>_. \<lparr>open = False, send = \<lparr>buf = [], cap = sendMsgBufferSize, closed = False\<rparr>,
                     sendToken = \<lparr>buf = [''nil''], cap = sendTokenBufferSize, closed = False\<rparr>\<rparr>)
       (0 := \<lparr>open = True, send = \<lparr>buf = replicate 1024 ''x'', cap = sendMsgBufferSize, closed = False\<rparr>,
              sendToken = \<lparr>buf = [''a''], cap = sendTokenBufferSize, closed = False\<rparr>\<rparr>)\<rparr>"
    using broadcasts_fill_queue [where s = "\<lparr>Token = ''a'', Client = Some 0, expireTime = 61\<rparr>" and c = 0 and now = 5
        and k = 1024 and ttl = 60 and m = "''x''" and rest = "[]" and h = "clients
    \<lparr>sessions = [\<lparr>Token = ''a'', Client = Some 0, expireTime = 61\<rparr>],
     clients = (\<lambda>_. \<lparr>open = False, send = \<lparr>buf = [], cap = sendMsgBufferSize, closed = False\<rparr>,
                     sendToken = \<lparr>buf = [''nil''], cap = sendTokenBufferSize, closed = False\<rparr>\<rparr>)
       (0 := \<lparr>open = True, send = \<lparr>buf = [], cap = sendMsgBufferSize, closed = False\<rparr>,
              sendToken = \<lparr>buf = [''a''], cap = sendTokenBufferSize, closed = False\<rparr>\<rparr>)\<rparr>"]
    by (simp add: SessionExpired_def refreshExpiryTime_def sendMsgBufferSize_def)
  show ?thesis
    using reg fill by simp
qed

lemma stalled_and_new_client_reachable:
  "Run 60 ((1, Register 0 [''a'']) # replicate 1024 (5, Broadcast ''x'') @ [(6, Register 1 [''b''])])
    \<lparr>sessions = [],
     clients = (\<lambda>_. \<lparr>open = False, send = \<lparr>buf = [], cap = sendMsgBufferSize, closed = False\<rparr>,
                     sendToken = \<lparr>buf = [''nil''], cap = sendTokenBufferSize, closed = False\<rparr>\<rparr>)\<rparr>
   = Inr
    \<lparr>sessions = [\<lparr>Token = ''a'', Client = Some 0, expireTime = 65\<rparr>,
                 \<lparr>Token = ''b'', Client = Some 1, expireTime = 66\<rparr>],
     clients = (\<lambda>_. \<lparr>open = False, send = \<lparr>buf = [], cap = sendMsgBufferSize, closed = False\<rparr>,
                     sendToken = \<lparr>buf = [''nil''], cap = sendTokenBufferSize, closed = False\<rparr>\<rparr>)
       (0 := \<lparr>open = True, send = \<lparr>buf = replicate 1024 ''x'', cap = sendMsgBufferSize, closed = False\<rparr>,
              sendToken = \<lparr>buf = [''a''], cap = sendTokenBufferSize, closed = False\<rparr>\<rparr>,
        1 := \<lparr>open = True, send = \<lparr>buf = [], cap = sendMsgBufferSize, closed = False\<rparr>,
              sendToken = \<lparr>buf = [''b''], cap = sendTokenBufferSize, closed = False\<rparr>\<rparr>)\<rparr>"
proof -
  have "Run 60 (((1, Register 0 [''a'']) # replicate 1024 (5, Broadcast ''x'')) @ [(6, Register 1 [''b''])])
    \<lparr>sessions = [],
     clients = (\<lambda>_. \<lparr>open = False, send = \<lparr>buf = [], cap = sendMsgBufferSize, closed = False\<rparr>,
                     sendToken = \<lparr>buf = [''nil''], cap = sendTokenBufferSize, closed = False\<rparr>\<rparr>)\<rparr>
   = Run 60 [(6, Register 1 [''b''])]
    \<lparr>sessions = [\<lparr>Token = ''a'', Client = Some 0, expireTime = 65\<rparr>],
     clients = (\<lambda>_. \<lparr>open = False, send = \<lparr>buf = [], cap = sendMsgBufferSize, closed = False\<rparr>,
                     sendToken = \<lparr>buf = [''nil''], cap = sendTokenBufferSize, closed = False\<rparr>\<rparr>)
       (0 := \<lparr>open = True, send = \<lparr>buf = replicate 1024 ''x'', cap = sendMsgBufferSize, closed = False\<rparr>,
              sendToken = \<lparr>buf = [''a''], cap = sendTokenBufferSize, closed = False\<rparr>\<rparr>)\<rparr>"
    unfolding Run_append stalled_client_reachable by simp
  also have "\<dots> = Inr
    \<lparr>sessions = [\<lparr>Token = ''a'', Client = Some 0, expireTime = 65\<rparr>,
                 \<lparr>Token = ''b'', Client = Some 1, expireTime = 66\<rparr>],
     clients = (\<lambda>_. \<lparr>open = False, send = \<lparr>buf = [], cap = sendMsgBufferSize, closed = False\<rparr>,
                     sendToken = \<lparr>buf = [''nil''], cap = sendTokenBufferSize, closed = False\<rparr>\<rparr>)
       (0 := \<lparr>open = True, send = \<lparr>buf = replicate 1024 ''x'', cap = sendMsgBufferSize, closed = False\<rparr>,
              sendToken = \<lparr>buf = [''a''], cap = sendTokenBufferSize, closed = False\<rparr>\<rparr>,
        1 := \<lparr>open = True, send = \<lparr>buf = [], cap = sendMsgBufferSize, closed = False\<rparr>,
              sendToken = \<lparr>buf = [''b''], cap = sendTokenBufferSize, closed = False\<rparr>\<rparr>)\<rparr>"
    by (simp add: hub_register_def recv_chan_def send_chan_def NewSession_def Exists_def
      SetClient_def refreshExpiryTime_def sendMsgBufferSize_def sendTokenBufferSize_def fun_upd_twist)
  finally show ?thesis by simp
qed

lemma stalled_and_lapsed_reachable:
  "Run 60 ([(1, Register 0 [''a'']), (1, Register 1 [''b'']), (2, Unregister 1)]
           @ replicate 1024 (50, Broadcast ''x''))
    \<lparr>sessions = [],
     clients = (\<lambda>_. \<lparr>open = False, send = \<lparr>buf = [], cap = sendMsgBufferSize, closed = False\<rparr>,
                     sendToken = \<lparr>buf = [''nil''], cap = sendTokenBufferSize, closed = False\<rparr>\<rparr>)\<rparr>
   = Inr
    \<lparr>sessions = [\<lparr>Token = ''a'', Client = Some 0, expireTime = 110\<rparr>,
                 \<lparr>Token = ''b'', Client = Some 1, expireTime = 61\<rparr>],
     clients = (\<lambda>_. \<lparr>open = False, send = \<lparr>buf = [], cap = sendMsgBufferSize, closed = False\<rparr>,
                     sendToken = \<lparr>buf = [''nil''], cap = sendTokenBufferSize, closed = False\<rparr>\<rparr>)
       (0 := \<lparr>open = True, send = \<lparr>buf = replicate 1024 ''x'', cap = sendMsgBufferSize, closed = False\<rparr>,
              sendToken = \<lparr>buf = [''a''], cap = sendTokenBufferSize, closed = False\<rparr>\<rparr>,
        1 := \<lparr>open = False, send = \<lparr>buf = [], cap = sendMsgBufferSize, closed = True\<rparr>,
              sendToken = \<lparr>buf = [''b''], cap = sendTokenBufferSize, closed = True\<rparr>\<rparr>)\<rparr>"
proof -
  have start: "Run 60 [(1, Register 0 [''a'']), (1, Register 1 [''b'']), (2, Unregister 1)]
    \<lparr>sessions = [],
     clients = (\<lambda>_. \<lparr>open = False, send = \<lparr>buf = [], cap = sendMsgBufferSize, closed = False\<rparr>,
                     sendToken = \<lparr>buf = [''nil''], cap = sendTokenBufferSize, closed = False\<rparr>\<rparr>)\<rparr>
   = Inr
    \<lparr>sessions = [\<lparr>Token = ''a'', Client = Some 0, expireTime = 61\<rparr>,
                 \<lparr>Token = ''b'', Client = Some 1, expireTime = 61\<rparr>],
     clients = (\<lambda>_. \<lparr>open = False, send = \<lparr>buf = [], cap = sendMsgBufferSize, closed = False\<rparr>,
                     sendToken = \<lparr>buf = [''nil''], cap = sendTokenBufferSize, closed = False\<rparr>\<rparr>)
       (0 := \<lparr>open = True, send = \<lparr>buf = [], cap = sendMsgBufferSize, closed = False\<rparr>,
              sendToken = \<lparr>buf = [''a''], cap = sendTokenBufferSize, closed = False\<rparr>\<rparr>,
        1 := \<lparr>open = False, send = \<lparr>buf = [], cap = sendMsgBufferSize, closed = True\<rparr>,
              sendToken = \<lparr>buf = [''b''], cap = sendTokenBufferSize, closed = True\<rparr>\<rparr>)\<rparr>"
    by (simp add: hub_register_def recv_chan_def send_chan_def NewSession_def Exists_def
      SetClient_def refreshExpiryTime_def sendMsgBufferSize_def sendTokenBufferSize_def
      hub_unregister_def force_close_def close_chan_def)
  have fill: "Run 60 (replicate 1024 (50, Broadcast ''x''))
    \<lparr>sessions = [\<lparr>Token = ''a'', Client = Some 0, expireTime = 61\<rparr>,
                 \<lparr>Token = ''b'', Client = Some 1, expireTime = 61\<rparr>],
     clients = (\<lambda>_. \<lparr>open = False, send = \<lparr>buf = [], cap = sendMsgBufferSize, closed = False\<rparr>,
                     sendToken = \<lparr>buf = [''nil''], cap = sendTokenBufferSize, closed = False\<rparr>\<rparr>)
       (0 := \<lparr>open = True, send = \<lparr>buf = [], cap = sendMsgBufferSize, closed = False\<rparr>,
              sendToken = \<lparr>buf = [''a''], cap = sendTokenBufferSize, closed = False\<rparr>\<rparr>,
        1 := \<lparr>open = False, send = \<lparr>buf = [], cap = sendMsgBufferSize, closed = True\<rparr>,
              sendToken = \<lparr>buf = [''b''], cap = sendTokenBufferSize, closed = True\<rparr>\<rparr>)\<rparr>
   = Inr
    \<lparr>sessions = [\<lparr>Token = ''a'', Client = Some 0, expireTime = 110\<rparr>,
                 \<lparr>Token = ''b'', Client = Some 1, expireTime = 61\<rparr>],
     clients = (\<lambda>_. \<lparr>open = False, send = \<lparr>buf = [], cap = sendMsgBufferSize, closed = False\<rparr>,
                     sendToken = \<lparr>buf = [''nil''], cap = sendTokenBufferSize, closed = False\<rparr>\<rparr>)
       (0 := \<lparr>open = True, send = \<lparr>buf = replicate 1024 ''x'', cap = sendMsgBufferSize, closed = False\<rparr>,
              sendToken = \<lparr>buf = [''a''], cap = sendTokenBufferSize, closed = False\<rparr>\<rparr>,
        1 := \<lparr>open = False, send = \<lparr>buf = [], cap = sendMsgBufferSize, closed = True\<rparr>,
              sendToken = \<lparr>buf = [''b''], cap = sendTokenBufferSize, closed = True\<rparr>\<rparr>)\<rparr>"
    using broadcasts_fill_queue [where s = "\<lparr>Token = ''a'', Client = Some 0, expireTime = 61\<rparr>" and c = 0 and now = 50
        and k = 1024 and ttl = 60 and m = "''x''" and rest = "[\<lparr>Token = ''b'', Client = Some 1, expireTime = 61\<rparr>]" and h = "clients
    \<lparr>sessions = [\<lparr>Token = ''a'', Client = Some 0, expireTime = 61\<rparr>,
                 \<lparr>Token = ''b'', Client = Some 1, expireTime = 61\<rparr>],
     clients = (\<lambda>_. \<lparr>open = False, send = \<lparr>buf = [], cap = sendMsgBufferSize, closed = False\<rparr>,
                     sendToken = \<lparr>buf = [''nil''], cap = sendTokenBufferSize, closed = False\<rparr>\<rparr>)
       (0 := \<lparr>open = True, send = \<lparr>buf = [], cap = sendMsgBufferSize, closed = False\<rparr>,
              sendToken = \<lparr>buf = [''a''], cap = sendTokenBufferSize, closed = False\<rparr>\<rparr>,
        1 := \<lparr>open = False, send = \<lparr>buf = [], cap = sendMsgBufferSize, closed = True\<rparr>,
              sendToken = \<lparr>buf = [''b''], cap = sendTokenBufferSize, closed = True\<rparr>\<rparr>)\<rparr>"]
    by (simp add: SessionExpired_def refreshExpiryTime_def sendMsgBufferSize_def fun_upd_twist)
  show ?thesis
    unfolding Run_append start using fill by simp
qed

text \<open>
  With the hub and the pump of client 0 side by side: the sweep that finds the queue of
  the stalled client full closes both queues, and a turn of the pump then empties the
  closed message queue into one frame. The client is still marked open.
\<close>

lemma drained_after_force_close_reachable:
  "system_run 60 0
     [Hub 6 (Broadcast ''hello''),
      Pump \<lparr>chosen = CaseSend, nextWriterErr = False, flushErr = False, pingErr = False\<rparr>]
     (\<lparr>sessions = [\<lparr>Token = ''a'', Client = Some 0, expireTime = 65\<rparr>],
     clients = (\<lambda>_. \<lparr>open = False, send = \<lparr>buf = [], cap = sendMsgBufferSize, closed = False\<rparr>,
                     sendToken = \<lparr>buf = [''nil''], cap = sendTokenBufferSize, closed = False\<rparr>\<rparr>)
       (0 := \<lparr>open = True, send = \<lparr>buf = replicate 1024 ''x'', cap = sendMsgBufferSize, closed = False\<rparr>,
              sendToken = \<lparr>buf = [''a''], cap = sendTokenBufferSize, closed = False\<rparr>\<rparr>)\<rparr>,
      \<lparr>wire = [], connClosed = False\<rparr>)
   = Inr
     (\<lparr>sessions = [\<lparr>Token = ''a'', Client = Some 0, expireTime = 66\<rparr>],
     clients = (\<lambda>_. \<lparr>open = False, send = \<lparr>buf = [], cap = sendMsgBufferSize, closed = False\<rparr>,
                     sendToken = \<lparr>buf = [''nil''], cap = sendTokenBufferSize, closed = False\<rparr>\<rparr>)
       (0 := \<lparr>open = True, send = \<lparr>buf = [], cap = sendMsgBufferSize, closed = True\<rparr>,
              sendToken = \<lparr>buf = [''a''], cap = sendTokenBufferSize, closed = True\<rparr>\<rparr>)\<rparr>,
      \<lparr>wire = [TextMessage (''x'' @ concat (map (\<lambda>m. newline @ m) (replicate 1023 ''x'')))],
       connClosed = False\<rparr>)"
proof -
  have sweep: "broadcastAll 6 60 ''hello''
     \<lparr>sessions = [\<lparr>Token = ''a'', Client = Some 0, expireTime = 65\<rparr>],
     clients = (\<lambda>_. \<lparr>open = False, send = \<lparr>buf = [], cap = sendMsgBufferSize, closed = False\<rparr>,
                     sendToken = \<lparr>buf = [''nil''], cap = sendTokenBufferSize, closed = False\<rparr>\<rparr>)
       (0 := \<lparr>open = True, send = \<lparr>buf = replicate 1024 ''x'', cap = sendMsgBufferSize, closed = False\<rparr>,
              sendToken = \<lparr>buf = [''a''], cap = sendTokenBufferSize, closed = False\<rparr>\<rparr>)\<rparr>
   = Inr
     (\<lparr>sessions = [\<lparr>Token = ''a'', Client = Some 0, expireTime = 66\<rparr>],
     clients = (\<lambda>_. \<lparr>open = False, send = \<lparr>buf = [], cap = sendMsgBufferSize, closed = False\<rparr>,
                     sendToken = \<lparr>buf = [''nil''], cap = sendTokenBufferSize, closed = False\<rparr>\<rparr>)
       (0 := \<lparr>open = True, send = \<lparr>buf = replicate 1024 ''x'', cap = sendMsgBufferSize, closed = True\<rparr>,
              sendToken = \<lparr>buf = [''a''], cap = sendTokenBufferSize, closed = True\<rparr>\<rparr>)\<rparr>,
      \<lparr>expiredSessionCount = 0, closedClientCount = 0,
       refreshedClientCount = 1, messagesSent = 0\<rparr>)"
    by (simp add: broadcastAll_def visit_def SessionExpired_def refreshExpiryTime_def
      try_send_def force_close_def close_chan_def sendMsgBufferSize_def
      sendTokenBufferSize_def set_expireTime_def no_counts_def)
  have "replicate (Suc 1023) ''x'' = ''x'' # replicate 1023 ''x''"
    by (rule replicate_Suc)
  then have queued: "replicate 1024 ''x'' = ''x'' # replicate 1023 ''x''"
    by simp
  have turn: "writePump_turn \<lparr>chosen = CaseSend, nextWriterErr = False, flushErr = False, pingErr = False\<rparr>
     (\<lparr>open = True, send = \<lparr>buf = replicate 1024 ''x'', cap = sendMsgBufferSize, closed = True\<rparr>,
       sendToken = \<lparr>buf = [''a''], cap = sendTokenBufferSize, closed = True\<rparr>\<rparr>,
      \<lparr>wire = [], connClosed = False\<rparr>)
   = Inr (True,
      \<lparr>open = True, send = \<lparr>buf = [], cap = sendMsgBufferSize, closed = True\<rparr>,
       sendToken = \<lparr>buf = [''a''], cap = sendTokenBufferSize, closed = True\<rparr>\<rparr>,
      \<lparr>wire = [TextMessage (''x'' @ concat (map (\<lambda>m. newline @ m) (replicate 1023 ''x'')))],
       connClosed = False\<rparr>)"
    using writePump_turn_send [where t = "\<lparr>chosen = CaseSend, nextWriterErr = False, flushErr = False, pingErr = False\<rparr>"
        and c = "\<lparr>open = True, send = \<lparr>buf = replicate 1024 ''x'', cap = sendMsgBufferSize, closed = True\<rparr>,
       sendToken = \<lparr>buf = [''a''], cap = sendTokenBufferSize, closed = True\<rparr>\<rparr>"
        and m = "''x''" and ms = "replicate 1023 ''x''" and conn = "\<lparr>wire = [], connClosed = False\<rparr>"]
      queued
    by simp
  show ?thesis
    using sweep turn by simp
qed

section \<open>Registration\<close>

text \<open>
  Claim C5. The client hands itself to the hub with the token of its request on its
  token queue. If that token is \<open>''nil''\<close> or is not in the session store, the hub calls
  \<open>NewSession\<close> and puts the token it returns on the client's token queue, and the session
  filed under it (when \<open>NewSession\<close> reports no error, a token that was not in the store
  before) is bound to the client. Otherwise, the token being one of the store and not the
  marker \<open>''nil''\<close>, the store keeps exactly its tokens, nothing is put on the token queue,
  and the existing session is bound to the client.
\<close>

theorem register_mints_or_reuses:
  assumes q: "buf (sendToken (clients svr c)) = [tok]"
    and nc: "\<not> closed (sendToken (clients svr c))"
    and cp: "0 < cap (sendToken (clients svr c))"
  shows "(tok = ''nil'' \<or> \<not> Exists (sessions svr) tok \<longrightarrow>
           (\<exists>t' err ss' svr'.
              NewSession cands now ttl (sessions svr) = (t', err, ss')
              \<and> hub_register now ttl cands c svr = Inr svr'
              \<and> buf (sendToken (clients svr' c)) = [t']
              \<and> sessions svr' = SetClient t' c ss'
              \<and> (\<not> err \<longrightarrow> \<not> Exists (sessions svr) t' \<and> Exists (sessions svr') t'
                    \<and> (\<forall>s \<in> set (sessions svr'). Token s = t' \<longrightarrow> Client s = Some c))))
       \<and> (tok \<noteq> ''nil'' \<and> Exists (sessions svr) tok \<longrightarrow>
           (\<exists>svr'. hub_register now ttl cands c svr = Inr svr'
              \<and> buf (sendToken (clients svr' c)) = []
              \<and> map Token (sessions svr') = map Token (sessions svr)
              \<and> sessions svr' = SetClient tok c (sessions svr)
              \<and> (\<forall>s \<in> set (sessions svr'). Token s = tok \<longrightarrow> Client s = Some c)))"
proof (intro conjI impI)
  assume fresh: "tok = ''nil'' \<or> \<not> Exists (sessions svr) tok"
  obtain t' err ss' where ns: "NewSession cands now ttl (sessions svr) = (t', err, ss')"
    by (cases "NewSession cands now ttl (sessions svr)") auto
  let ?svr' = "svr\<lparr>sessions := SetClient t' c ss',
                   clients := (clients svr)(c := (clients svr c)
                      \<lparr>open := True, sendToken := (sendToken (clients svr c))\<lparr>buf := [t']\<rparr>\<rparr>)\<rparr>"
  have reg: "hub_register now ttl cands c svr = Inr ?svr'"
    using fresh q nc cp ns by (simp add: hub_register_def recv_chan_def send_chan_def)
  have minted: "\<not> Exists (sessions svr) t' \<and> Exists (sessions ?svr') t'
      \<and> (\<forall>s \<in> set (sessions ?svr'). Token s = t' \<longrightarrow> Client s = Some c)" if "\<not> err"
  proof -
    from NewSession_cases [OF ns] that
    have a: "\<not> Exists (sessions svr) t'"
      and b: "ss' = sessions svr @ [\<lparr>Token = t', Client = None, expireTime = refreshExpiryTime now ttl\<rparr>]"
      by simp_all
    have "Exists ss' t'" using b by (simp add: Exists_def)
    then have "Exists (sessions ?svr') t'" by (simp add: Exists_SetClient)
    moreover have "\<forall>s \<in> set (sessions ?svr'). Token s = t' \<longrightarrow> Client s = Some c"
      by (simp add: SetClient_bound)
    ultimately show ?thesis using a by blast
  qed
  show "\<exists>t' err ss' svr'.
              NewSession cands now ttl (sessions svr) = (t', err, ss')
              \<and> hub_register now ttl cands c svr = Inr svr'
              \<and> buf (sendToken (clients svr' c)) = [t']
              \<and> sessions svr' = SetClient t' c ss'
              \<and> (\<not> err \<longrightarrow> \<not> Exists (sessions svr) t' \<and> Exists (sessions svr') t'
                    \<and> (\<forall>s \<in> set (sessions svr'). Token s = t' \<longrightarrow> Client s = Some c))"
    apply (rule exI [of _ t'], rule exI [of _ err], rule exI [of _ ss'], rule exI [of _ ?svr'])
    using ns reg minted by simp
next
  assume known: "tok \<noteq> ''nil'' \<and> Exists (sessions svr) tok"
  let ?svr' = "svr\<lparr>sessions := SetClient tok c (sessions svr),
                   clients := (clients svr)(c := (clients svr c)
                      \<lparr>open := True, sendToken := (sendToken (clients svr c))\<lparr>buf := []\<rparr>\<rparr>)\<rparr>"
  have reg: "hub_register now ttl cands c svr = Inr ?svr'"
    using known q by (simp add: hub_register_def recv_chan_def)
  show "\<exists>svr'. hub_register now ttl cands c svr = Inr svr'
              \<and> buf (sendToken (clients svr' c)) = []
              \<and> map Token (sessions svr') = map Token (sessions svr)
              \<and> sessions svr' = SetClient tok c (sessions svr)
              \<and> (\<forall>s \<in> set (sessions svr'). Token s = tok \<longrightarrow> Client s = Some c)"
    apply (rule exI [of _ ?svr'])
    using reg by (simp add: map_Token_SetClient SetClient_bound)
qed

text \<open>
  Two registrations into a store that holds the token \<open>''t1''\<close>: with \<open>''nil''\<close> the
  token \<open>''t2''\<close> is minted and sent back; with \<open>''t1''\<close> nothing is sent and the session
  moves to the new client.
\<close>

theorem register_mints_or_reuses_witness:
  "(case hub_register 9 60 [''t1'', ''t2''] 0
          \<lparr>sessions = [\<lparr>Token = ''t1'', Client = Some 7, expireTime = 30\<rparr>],
           clients = (\<lambda>_. \<lparr>open = False, send = \<lparr>buf = [], cap = 1024, closed = False\<rparr>,
                             sendToken = \<lparr>buf = [''nil''], cap = 1, closed = False\<rparr>\<rparr>)\<rparr> of
      Inl f \<Rightarrow> False
    | Inr svr' \<Rightarrow> buf (sendToken (clients svr' 0)) = [''t2'']
          \<and> sessions svr' = [\<lparr>Token = ''t1'', Client = Some 7, expireTime = 30\<rparr>,
                              \<lparr>Token = ''t2'', Client = Some 0, expireTime = 69\<rparr>])
   \<and> (case hub_register 9 60 [''t1'', ''t2''] 0
          \<lparr>sessions = [\<lparr>Token = ''t1'', Client = Some 7, expireTime = 30\<rparr>],
           clients = (\<lambda>_. \<lparr>open = False, send = \<lparr>buf = [], cap = 1024, closed = False\<rparr>,
                             sendToken = \<lparr>buf = [''t1''], cap = 1, closed = False\<rparr>\<rparr>)\<rparr> of
      Inl f \<Rightarrow> False
    | Inr svr' \<Rightarrow> buf (sendToken (clients svr' 0)) = []
          \<and> sessions svr' = [\<lparr>Token = ''t1'', Client = Some 0, expireTime = 30\<rparr>])"
  using register_mints_or_reuses [of
          "\<lparr>sessions = [\<lparr>Token = ''t1'', Client = Some 7, expireTime = 30\<rparr>],
           clients = (\<lambda>_. \<lparr>open = False, send = \<lparr>buf = [], cap = 1024, closed = False\<rparr>,
                             sendToken = \<lparr>buf = [''nil''], cap = 1, closed = False\<rparr>\<rparr>)\<rparr>"
          0 "''nil''" "[''t1'', ''t2'']" 9 60]
    register_mints_or_reuses [of
          "\<lparr>sessions = [\<lparr>Token = ''t1'', Client = Some 7, expireTime = 30\<rparr>],
           clients = (\<lambda>_. \<lparr>open = False, send = \<lparr>buf = [], cap = 1024, closed = False\<rparr>,
                             sendToken = \<lparr>buf = [''t1''], cap = 1, closed = False\<rparr>\<rparr>)\<rparr>"
          0 "''t1''" "[''t1'', ''t2'']" 9 60]
  by (simp add: NewSession_def Exists_def hub_register_def recv_chan_def send_chan_def
      SetClient_def refreshExpiryTime_def)

section \<open>The broadcast sweep\<close>

text \<open>
  When every session of the store is deliverable (unexpired, bound to a client that is
  marked open with an unclosed message queue under capacity) and the \<open>K\<close> sessions are
  bound to \<open>K\<close> different clients, one sweep returns with \<open>messagesSent = K\<close>, each of
  these clients has the message at the end of its queue, every other client is untouched,
  and no queue is closed.
\<close>

lemma sweep_delivers_to_all_unclosed:
  assumes "distinct (map Client (sessions svr))"
    and "list_all (deliverable now svr) (sessions svr)"
  shows "\<exists>svr' n. broadcastAll now ttl message svr = Inr (svr', n)
           \<and> messagesSent n = length (sessions svr)
           \<and> refreshedClientCount n = length (sessions svr)
           \<and> expiredSessionCount n = 0
           \<and> closedClientCount n = 0
           \<and> map Token (sessions svr') = map Token (sessions svr)
           \<and> map Client (sessions svr') = map Client (sessions svr)
           \<and> (\<forall>c. clients svr' c =
                 (if Some c \<in> set (map Client (sessions svr)) then enqueue message (clients svr c)
                  else clients svr c))
           \<and> (\<forall>c. closed (send (clients svr' c)) = closed (send (clients svr c))
                 \<and> closed (sendToken (clients svr' c)) = closed (sendToken (clients svr c))
                 \<and> open (clients svr' c) = open (clients svr c))"
proof -
  from Range_visit_deliver [OF assms, of ttl message no_counts]
  obtain svr' n where r: "Range_sessions (visit now ttl message) (sessions svr) (svr, no_counts) = Inr (svr', n)"
    and m: "messagesSent n = messagesSent no_counts + length (sessions svr)"
    and f: "refreshedClientCount n = refreshedClientCount no_counts + length (sessions svr)"
    and e: "expiredSessionCount n = expiredSessionCount no_counts"
    and k: "closedClientCount n = closedClientCount no_counts"
    and t: "map Token (sessions svr') = map Token (sessions svr)"
    and b: "map Client (sessions svr') = map Client (sessions svr)"
    and h: "\<forall>c. clients svr' c =
                 (if Some c \<in> set (map Client (sessions svr)) then enqueue message (clients svr c)
                  else clients svr c)"
    by blast
  have flags: "\<forall>c. closed (send (clients svr' c)) = closed (send (clients svr c))
                 \<and> closed (sendToken (clients svr' c)) = closed (sendToken (clients svr c))
                 \<and> open (clients svr' c) = open (clients svr c)"
    using h by (simp add: enqueue_def)
  show ?thesis
    apply (rule exI [of _ svr'], rule exI [of _ n])
    using r m f e k t b h flags by (simp add: broadcastAll_def no_counts_def)
qed

text \<open>Two sessions, two clients with one message queued each: both receive \<open>''hello''\<close>.\<close>

lemma sweep_delivers_to_all_unclosed_example:
  "(case broadcastAll 5 60 ''hello''
       \<lparr>sessions = [\<lparr>Token = ''a'', Client = Some 0, expireTime = 50\<rparr>,
                    \<lparr>Token = ''b'', Client = Some 1, expireTime = 7\<rparr>],
        clients = (\<lambda>_. \<lparr>open = True, send = \<lparr>buf = [''x''], cap = 1024, closed = False\<rparr>,
                         sendToken = make_chan sendTokenBufferSize\<rparr>)\<rparr> of
      Inl f \<Rightarrow> False
    | Inr (svr', n) \<Rightarrow>
        messagesSent n = 2
        \<and> buf (send (clients svr' 0)) = [''x'', ''hello'']
        \<and> buf (send (clients svr' 1)) = [''x'', ''hello'']
        \<and> \<not> closed (send (clients svr' 0)) \<and> \<not> closed (send (clients svr' 1)))"
  using sweep_delivers_to_all_unclosed [of
      "\<lparr>sessions = [\<lparr>Token = ''a'', Client = Some 0, expireTime = 50\<rparr>,
                    \<lparr>Token = ''b'', Client = Some 1, expireTime = 7\<rparr>],
        clients = (\<lambda>_. \<lparr>open = True, send = \<lparr>buf = [''x''], cap = 1024, closed = False\<rparr>,
                         sendToken = make_chan sendTokenBufferSize\<rparr>)\<rparr>" 5 60 "''hello''"]
  by (auto simp: deliverable_def SessionExpired_def enqueue_def)

text \<open>
  Claim C8. One session is in the store; its client is marked open, its deadline has not
  passed and its message queue is empty, so under capacity (the state of
  \<open>drained_after_force_close_reachable\<close>). The queue was closed by the force-close of
  an earlier sweep, which left the client marked open: the sweep sends to the closed
  queue, which is the runtime panic \<open>send on closed channel\<close>, and nothing is delivered.
  (When the queues have not been closed the sweep delivers to all \<open>K\<close> clients and closes
  nothing: \<open>sweep_delivers_to_all_unclosed\<close> above.)
\<close>

theorem open_unexpired_under_capacity_yet_panics:
  "open (clients
     \<lparr>sessions = [\<lparr>Token = ''a'', Client = Some 0, expireTime = 66\<rparr>],
     clients = (\<lambda>_. \<lparr>open = False, send = \<lparr>buf = [], cap = sendMsgBufferSize, closed = False\<rparr>,
                     sendToken = \<lparr>buf = [''nil''], cap = sendTokenBufferSize, closed = False\<rparr>\<rparr>)
       (0 := \<lparr>open = True, send = \<lparr>buf = [], cap = sendMsgBufferSize, closed = True\<rparr>,
              sendToken = \<lparr>buf = [''a''], cap = sendTokenBufferSize, closed = True\<rparr>\<rparr>)\<rparr> 0)
   \<and> \<not> SessionExpired 7 \<lparr>Token = ''a'', Client = Some 0, expireTime = 66\<rparr>
   \<and> length (buf (send (clients
     \<lparr>sessions = [\<lparr>Token = ''a'', Client = Some 0, expireTime = 66\<rparr>],
     clients = (\<lambda>_. \<lparr>open = False, send = \<lparr>buf = [], cap = sendMsgBufferSize, closed = False\<rparr>,
                     sendToken = \<lparr>buf = [''nil''], cap = sendTokenBufferSize, closed = False\<rparr>\<rparr>)
       (0 := \<lparr>open = True, send = \<lparr>buf = [], cap = sendMsgBufferSize, closed = True\<rparr>,
              sendToken = \<lparr>buf = [''a''], cap = sendTokenBufferSize, closed = True\<rparr>\<rparr>)\<rparr> 0)))
       < cap (send (clients
     \<lparr>sessions = [\<lparr>Token = ''a'', Client = Some 0, expireTime = 66\<rparr>],
     clients = (\<lambda>_. \<lparr>open = False, send = \<lparr>buf = [], cap = sendMsgBufferSize, closed = False\<rparr>,
                     sendToken = \<lparr>buf = [''nil''], cap = sendTokenBufferSize, closed = False\<rparr>\<rparr>)
       (0 := \<lparr>open = True, send = \<lparr>buf = [], cap = sendMsgBufferSize, closed = True\<rparr>,
              sendToken = \<lparr>buf = [''a''], cap = sendTokenBufferSize, closed = True\<rparr>\<rparr>)\<rparr> 0))
   \<and> broadcastAll 7 60 ''again''
     \<lparr>sessions = [\<lparr>Token = ''a'', Client = Some 0, expireTime = 66\<rparr>],
     clients = (\<lambda>_. \<lparr>open = False, send = \<lparr>buf = [], cap = sendMsgBufferSize, closed = False\<rparr>,
                     sendToken = \<lparr>buf = [''nil''], cap = sendTokenBufferSize, closed = False\<rparr>\<rparr>)
       (0 := \<lparr>open = True, send = \<lparr>buf = [], cap = sendMsgBufferSize, closed = True\<rparr>,
              sendToken = \<lparr>buf = [''a''], cap = sendTokenBufferSize, closed = True\<rparr>\<rparr>)\<rparr>
     = Inl SendOnClosedChannel"
  by (simp add: broadcastAll_def visit_def SessionExpired_def refreshExpiryTime_def
      try_send_def force_close_def close_chan_def sendMsgBufferSize_def
      sendTokenBufferSize_def set_expireTime_def no_counts_def)

text \<open>
  Claim C1. Client 0 has 1024 messages queued (the capacity) and client 1 has just been
  registered (the state of \<open>stalled_and_new_client_reachable\<close>). The sweep visits
  session \<open>''a''\<close> of client 0 first: both queues of client 0 are closed, the visitor
  answers \<open>false\<close>, and the iteration stops. Client 1 never gets the message although it
  is marked open and its queue is empty.
\<close>

theorem sweep_stops_after_force_close:
  "(case broadcastAll 7 60 ''hello''
    \<lparr>sessions = [\<lparr>Token = ''a'', Client = Some 0, expireTime = 65\<rparr>,
                 \<lparr>Token = ''b'', Client = Some 1, expireTime = 66\<rparr>],
     clients = (\<lambda>_. \<lparr>open = False, send = \<lparr>buf = [], cap = sendMsgBufferSize, closed = False\<rparr>,
                     sendToken = \<lparr>buf = [''nil''], cap = sendTokenBufferSize, closed = False\<rparr>\<rparr>)
       (0 := \<lparr>open = True, send = \<lparr>buf = replicate 1024 ''x'', cap = sendMsgBufferSize, closed = False\<rparr>,
              sendToken = \<lparr>buf = [''a''], cap = sendTokenBufferSize, closed = False\<rparr>\<rparr>,
        1 := \<lparr>open = True, send = \<lparr>buf = [], cap = sendMsgBufferSize, closed = False\<rparr>,
              sendToken = \<lparr>buf = [''b''], cap = sendTokenBufferSize, closed = False\<rparr>\<rparr>)\<rparr> of
      Inl f \<Rightarrow> False
    | Inr (svr', n) \<Rightarrow>
        closed (send (clients svr' 0)) \<and> closed (sendToken (clients svr' 0))
        \<and> open (clients svr' 1) \<and> \<not> closed (send (clients svr' 1))
        \<and> buf (send (clients svr' 1)) = []
        \<and> map expireTime (sessions svr') = [67, 66]
        \<and> refreshedClientCount n = 1 \<and> messagesSent n = 0)"
  by (simp add: broadcastAll_def visit_def SessionExpired_def refreshExpiryTime_def
      try_send_def force_close_def close_chan_def sendMsgBufferSize_def
      sendTokenBufferSize_def set_expireTime_def no_counts_def)

text \<open>
  Claim C7. Client 1 was unregistered long ago and the deadline 61 of its session
  \<open>''b''\<close> has passed at time 100; client 0 has 1024 messages queued and its session
  \<open>''a''\<close> is unexpired (the state of \<open>stalled_and_lapsed_reachable\<close>). The sweep visits
  \<open>''a''\<close> first and stops after closing the queues of client 0, so the expired session
  \<open>''b''\<close> is still in the store after the sweep. (Single visits do what the claim says,
  \<open>visit_expired\<close> and \<open>visit_not_open\<close> above, and neither registration nor
  unregistration removes a session, \<open>hub_register_keeps_tokens\<close> and
  \<open>hub_unregister_keeps_sessions\<close>.)
\<close>

theorem expired_session_after_force_close_survives:
  "(case broadcastAll 100 60 ''hello''
    \<lparr>sessions = [\<lparr>Token = ''a'', Client = Some 0, expireTime = 110\<rparr>,
                 \<lparr>Token = ''b'', Client = Some 1, expireTime = 61\<rparr>],
     clients = (\<lambda>_. \<lparr>open = False, send = \<lparr>buf = [], cap = sendMsgBufferSize, closed = False\<rparr>,
                     sendToken = \<lparr>buf = [''nil''], cap = sendTokenBufferSize, closed = False\<rparr>\<rparr>)
       (0 := \<lparr>open = True, send = \<lparr>buf = replicate 1024 ''x'', cap = sendMsgBufferSize, closed = False\<rparr>,
              sendToken = \<lparr>buf = [''a''], cap = sendTokenBufferSize, closed = False\<rparr>\<rparr>,
        1 := \<lparr>open = False, send = \<lparr>buf = [], cap = sendMsgBufferSize, closed = True\<rparr>,
              sendToken = \<lparr>buf = [''b''], cap = sendTokenBufferSize, closed = True\<rparr>\<rparr>)\<rparr> of
      Inl f \<Rightarrow> False
    | Inr (svr', n) \<Rightarrow>
        SessionExpired 100 \<lparr>Token = ''b'', Client = Some 1, expireTime = 61\<rparr>
        \<and> sessions svr' = [\<lparr>Token = ''a'', Client = Some 0, expireTime = 160\<rparr>,
                            \<lparr>Token = ''b'', Client = Some 1, expireTime = 61\<rparr>]
        \<and> Exists (sessions svr') ''b''
        \<and> expiredSessionCount n = 0)"
  by (simp add: broadcastAll_def visit_def SessionExpired_def refreshExpiryTime_def
      try_send_def force_close_def close_chan_def sendMsgBufferSize_def
      sendTokenBufferSize_def set_expireTime_def no_counts_def Exists_def)

text \<open>
  Claim C3. Client 0 is marked open and its message queue is full (the state of
  \<open>stalled_client_reachable\<close>). The broadcast closes both of its queues and leaves it
  marked open; the unregistration that follows finds it open and closes the message
  queue a second time, which is the runtime panic \<open>close of closed channel\<close>. (An
  unregistration after an unregistration is harmless: \<open>hub_unregister_not_open\<close> above.)
\<close>

theorem unregister_after_force_close_closes_twice:
  "Run 60 [(6, Broadcast ''hello''), (7, Unregister 0)]
    \<lparr>sessions = [\<lparr>Token = ''a'', Client = Some 0, expireTime = 65\<rparr>],
     clients = (\<lambda>_. \<lparr>open = False, send = \<lparr>buf = [], cap = sendMsgBufferSize, closed = False\<rparr>,
                     sendToken = \<lparr>buf = [''nil''], cap = sendTokenBufferSize, closed = False\<rparr>\<rparr>)
       (0 := \<lparr>open = True, send = \<lparr>buf = replicate 1024 ''x'', cap = sendMsgBufferSize, closed = False\<rparr>,
              sendToken = \<lparr>buf = [''a''], cap = sendTokenBufferSize, closed = False\<rparr>\<rparr>)\<rparr>
   = Inl CloseOfClosedChannel"
  by (simp add: broadcastAll_def visit_def SessionExpired_def refreshExpiryTime_def
      try_send_def force_close_def close_chan_def sendMsgBufferSize_def
      sendTokenBufferSize_def set_expireTime_def no_counts_def hub_unregister_def)




section \<open>The write pump\<close>

text \<open>
  Claim C9. When the pump's \<open>select\<close> takes a message \<open>m\<close> from the message queue while
  the messages \<open>ms\<close> are queued behind it, and the transport gives a writer and flushes
  it, the pump writes one text frame, \<open>m\<close> followed by each message of \<open>ms\<close> with a
  newline before it, leaves the queue empty, and goes on.
\<close>

theorem writePump_batches_queued:
  assumes "chosen t = CaseSend" and "buf (send c) = m # ms"
    and "\<not> nextWriterErr t" and "\<not> flushErr t"
  shows "writePump_turn t (c, conn) =
           Inr (True, c\<lparr>send := (send c)\<lparr>buf := []\<rparr>\<rparr>,
                conn\<lparr>wire := wire conn @ [TextMessage (m @ concat (map (\<lambda>x. newline @ x) ms))]\<rparr>)"
proof -
  have d: "drain (length ms) ((send c)\<lparr>buf := ms\<rparr>) m =
           Inr (m @ concat (map (\<lambda>x. newline @ x) ms), (send c)\<lparr>buf := ms, buf := []\<rparr>)"
    by (rule drain_queued) simp
  show ?thesis
    using assms d by (simp add: writePump_turn_def recv_chan_def)
qed

text \<open>Three queued messages leave as one frame: \<open>a\<close>, newline, \<open>b\<close>, newline, \<open>c\<close>.\<close>

theorem writePump_batches_queued_witness:
  "writePump_turn \<lparr>chosen = CaseSend, nextWriterErr = False, flushErr = False, pingErr = False\<rparr>
     (\<lparr>open = True, send = \<lparr>buf = [''a'', ''b'', ''c''], cap = sendMsgBufferSize, closed = False\<rparr>,
       sendToken = make_chan sendTokenBufferSize\<rparr>, \<lparr>wire = [], connClosed = False\<rparr>)
   = Inr (True,
          \<lparr>open = True, send = \<lparr>buf = [], cap = sendMsgBufferSize, closed = False\<rparr>,
            sendToken = make_chan sendTokenBufferSize\<rparr>,
          \<lparr>wire = [TextMessage [CHR ''a'', CHR 0x0A, CHR ''b'', CHR 0x0A, CHR ''c'']], connClosed = False\<rparr>)"
  using writePump_batches_queued [of "\<lparr>chosen = CaseSend, nextWriterErr = False, flushErr = False, pingErr = False\<rparr>"
      "\<lparr>open = True, send = \<lparr>buf = [''a'', ''b'', ''c''], cap = sendMsgBufferSize, closed = False\<rparr>,
       sendToken = make_chan sendTokenBufferSize\<rparr>" "''a''" "[''b'', ''c'']" "\<lparr>wire = [], connClosed = False\<rparr>"]
  by (simp add: newline_def)

text \<open>
  Claim C4, as stated, fails: on a closed message queue the pump returns without writing
  a close frame. Both queues closed and empty, the \<open>select\<close> takes the message-queue
  case: the pump returns, the transport is closed, and nothing was written.
\<close>

theorem closed_message_queue_no_close_frame:
  "writePump [\<lparr>chosen = CaseSend, nextWriterErr = False, flushErr = False, pingErr = False\<rparr>]
     (\<lparr>open = True, send = \<lparr>buf = [], cap = sendMsgBufferSize, closed = True\<rparr>,
       sendToken = \<lparr>buf = [], cap = sendTokenBufferSize, closed = True\<rparr>\<rparr>,
      \<lparr>wire = [], connClosed = False\<rparr>)
   = Inr (True,
          \<lparr>open = True, send = \<lparr>buf = [], cap = sendMsgBufferSize, closed = True\<rparr>,
            sendToken = \<lparr>buf = [], cap = sendTokenBufferSize, closed = True\<rparr>\<rparr>,
          \<lparr>wire = [], connClosed = True\<rparr>)"
  by (simp add: writePump_turn_def recv_chan_def)

text \<open>
  Claim C4, amended. When the pump's \<open>select\<close> finds the message queue closed and empty,
  the pump returns without writing anything (the transport is closed by the deferred
  function); when it finds the token queue closed and empty, it writes a close frame and
  returns. In both cases the turns that would have followed are not taken.
\<close>

theorem writePump_exit_on_closed_queue:
  "(chosen t = CaseSend \<and> buf (send c) = [] \<and> closed (send c) \<longrightarrow>
      writePump (t # ts) (c, conn) = Inr (True, c, conn\<lparr>connClosed := True\<rparr>))
   \<and> (chosen t = CaseSendToken \<and> buf (sendToken c) = [] \<and> closed (sendToken c) \<longrightarrow>
      writePump (t # ts) (c, conn) =
        Inr (True, c, conn\<lparr>wire := wire conn @ [CloseMessage], connClosed := True\<rparr>))"
  by (simp add: writePump_turn_def recv_chan_def)

text \<open>The same client and transport, once through each of the two cases.\<close>

theorem writePump_exit_on_closed_queue_witness:
  "writePump [\<lparr>chosen = CaseSend, nextWriterErr = False, flushErr = False, pingErr = False\<rparr>,
              \<lparr>chosen = CaseTicker, nextWriterErr = False, flushErr = False, pingErr = False\<rparr>]
     (\<lparr>open = True, send = \<lparr>buf = [], cap = sendMsgBufferSize, closed = True\<rparr>,
       sendToken = \<lparr>buf = [], cap = sendTokenBufferSize, closed = True\<rparr>\<rparr>,
      \<lparr>wire = [PingMessage], connClosed = False\<rparr>)
   = Inr (True,
          \<lparr>open = True, send = \<lparr>buf = [], cap = sendMsgBufferSize, closed = True\<rparr>,
            sendToken = \<lparr>buf = [], cap = sendTokenBufferSize, closed = True\<rparr>\<rparr>,
          \<lparr>wire = [PingMessage], connClosed = True\<rparr>)
   \<and> writePump [\<lparr>chosen = CaseSendToken, nextWriterErr = False, flushErr = False, pingErr = False\<rparr>,
              \<lparr>chosen = CaseTicker, nextWriterErr = False, flushErr = False, pingErr = False\<rparr>]
     (\<lparr>open = True, send = \<lparr>buf = [], cap = sendMsgBufferSize, closed = True\<rparr>,
       sendToken = \<lparr>buf = [], cap = sendTokenBufferSize, closed = True\<rparr>\<rparr>,
      \<lparr>wire = [PingMessage], connClosed = False\<rparr>)
   = Inr (True,
          \<lparr>open = True, send = \<lparr>buf = [], cap = sendMsgBufferSize, closed = True\<rparr>,
            sendToken = \<lparr>buf = [], cap = sendTokenBufferSize, closed = True\<rparr>\<rparr>,
          \<lparr>wire = [PingMessage, CloseMessage], connClosed = True\<rparr>)"
  using writePump_exit_on_closed_queue [of
      "\<lparr>chosen = CaseSend, nextWriterErr = False, flushErr = False, pingErr = False\<rparr>"
      "\<lparr>open = True, send = \<lparr>buf = [], cap = sendMsgBufferSize, closed = True\<rparr>,
       sendToken = \<lparr>buf = [], cap = sendTokenBufferSize, closed = True\<rparr>\<rparr>"
      "[\<lparr>chosen = CaseTicker, nextWriterErr = False, flushErr = False, pingErr = False\<rparr>]"
      "\<lparr>wire = [PingMessage], connClosed = False\<rparr>"]
    writePump_exit_on_closed_queue [of
      "\<lparr>chosen = CaseSendToken, nextWriterErr = False, flushErr = False, pingErr = False\<rparr>"
      "\<lparr>open = True, send = \<lparr>buf = [], cap = sendMsgBufferSize, closed = True\<rparr>,
       sendToken = \<lparr>buf = [], cap = sendTokenBufferSize, closed = True\<rparr>\<rparr>"
      "[\<lparr>chosen = CaseTicker, nextWriterErr = False, flushErr = False, pingErr = False\<rparr>]"
      "\<lparr>wire = [PingMessage], connClosed = False\<rparr>"]
  by simp

section \<open>Token handshake and broadcast data\<close>

text \<open>
  Claim C6, as stated, fails. A client connects with \<open>''nil''\<close>; the hub registers it
  and queues the minted token \<open>''tok1''\<close>; a broadcast of \<open>''hello''\<close> is handled before
  the pump takes its first turn. Both queues are then ready, the \<open>select\<close> of the pump may
  take the message queue first, and the data frame is on the wire before the token frame.
\<close>

theorem data_frame_before_token_frame:
  "serveWs_client ''nil'' =
     Inr \<lparr>open = False, send = \<lparr>buf = [], cap = 1024, closed = False\<rparr>,
          sendToken = \<lparr>buf = [''nil''], cap = 1, closed = False\<rparr>\<rparr>
   \<and> (case system_run 60 0
          [Hub 1 (Register 0 [''tok1'']),
           Hub 2 (Broadcast ''hello''),
           Pump \<lparr>chosen = CaseSend, nextWriterErr = False, flushErr = False, pingErr = False\<rparr>,
           Pump \<lparr>chosen = CaseSendToken, nextWriterErr = False, flushErr = False, pingErr = False\<rparr>]
          (\<lparr>sessions = [],
            clients = (\<lambda>_. \<lparr>open = False, send = \<lparr>buf = [], cap = 1024, closed = False\<rparr>,
                             sendToken = \<lparr>buf = [''nil''], cap = 1, closed = False\<rparr>\<rparr>)\<rparr>,
           \<lparr>wire = [], connClosed = False\<rparr>) of
        Inl f \<Rightarrow> False
      | Inr (svr', conn') \<Rightarrow> wire conn' = [TextMessage ''hello'', TextMessage ''tok1''])"
  by (simp add: serveWs_client_def make_chan_def send_chan_def sendMsgBufferSize_def
      sendTokenBufferSize_def hub_register_def recv_chan_def NewSession_def Exists_def
      SetClient_def broadcastAll_def visit_def SessionExpired_def refreshExpiryTime_def
      try_send_def set_expireTime_def no_counts_def writePump_turn_def)

text \<open>
  Claim C6, amended. For a client as \<open>serveWs\<close> builds it, registered with \<open>''nil''\<close> or
  with a token that is not in the store, registration leaves the token returned by
  \<open>NewSession\<close> alone on the token queue while the message queue is still empty: the
  token is queued before any broadcast data can be queued for the client. If the pump
  takes its turn then, the message-queue case cannot proceed and the token-queue case
  writes the token as one text frame.
\<close>

theorem token_queued_before_any_data:
  assumes "serveWs_client tok = Inr (clients svr c)"
    and "tok = ''nil'' \<or> \<not> Exists (sessions svr) tok"
  shows "\<exists>svr' minted. hub_register now ttl cands c svr = Inr svr'
           \<and> minted = fst (NewSession cands now ttl (sessions svr))
           \<and> buf (sendToken (clients svr' c)) = [minted]
           \<and> buf (send (clients svr' c)) = []
           \<and> writePump_turn \<lparr>chosen = CaseSend, nextWriterErr = False, flushErr = False,
                               pingErr = False\<rparr> (clients svr' c, conn) = Inl WouldBlock
           \<and> (\<exists>cl. writePump_turn \<lparr>chosen = CaseSendToken, nextWriterErr = False,
                                     flushErr = False, pingErr = False\<rparr> (clients svr' c, conn)
                      = Inr (True, cl, conn\<lparr>wire := wire conn @ [TextMessage minted]\<rparr>))"
proof -
  obtain t' err ss' where ns: "NewSession cands now ttl (sessions svr) = (t', err, ss')"
    by (cases "NewSession cands now ttl (sessions svr)") auto
  from assms(1) have cl: "clients svr c =
      \<lparr>open = False, send = \<lparr>buf = [], cap = sendMsgBufferSize, closed = False\<rparr>,
       sendToken = \<lparr>buf = [tok], cap = sendTokenBufferSize, closed = False\<rparr>\<rparr>"
    by (simp add: serveWs_client_def make_chan_def send_chan_def sendTokenBufferSize_def)
  let ?cl' = "\<lparr>open = True, send = \<lparr>buf = [], cap = sendMsgBufferSize, closed = False\<rparr>,
       sendToken = \<lparr>buf = [t'], cap = sendTokenBufferSize, closed = False\<rparr>\<rparr>"
  let ?svr' = "svr\<lparr>sessions := SetClient t' c ss', clients := (clients svr)(c := ?cl')\<rparr>"
  have reg: "hub_register now ttl cands c svr = Inr ?svr'"
    using assms(2) cl ns
    by (simp add: hub_register_def recv_chan_def send_chan_def sendTokenBufferSize_def)
  have c': "clients ?svr' c = ?cl'" by simp
  have blocked: "writePump_turn \<lparr>chosen = CaseSend, nextWriterErr = False, flushErr = False,
                               pingErr = False\<rparr> (?cl', conn) = Inl WouldBlock"
    by (simp add: writePump_turn_def recv_chan_def)
  have tokturn: "writePump_turn \<lparr>chosen = CaseSendToken, nextWriterErr = False,
                                     flushErr = False, pingErr = False\<rparr> (?cl', conn)
                      = Inr (True, ?cl'\<lparr>sendToken := \<lparr>buf = [], cap = sendTokenBufferSize, closed = False\<rparr>\<rparr>,
                             conn\<lparr>wire := wire conn @ [TextMessage t']\<rparr>)"
    by (simp add: writePump_turn_def recv_chan_def)
  show ?thesis
    apply (rule exI [of _ ?svr'], rule exI [of _ t'])
    unfolding c'
    using reg ns blocked tokturn by simp
qed

text \<open>Registration of a client that connected with \<open>''nil''\<close> into an empty store.\<close>

theorem token_queued_before_any_data_witness:
  "serveWs_client ''nil'' =
     Inr \<lparr>open = False, send = \<lparr>buf = [], cap = 1024, closed = False\<rparr>,
          sendToken = \<lparr>buf = [''nil''], cap = 1, closed = False\<rparr>\<rparr>
   \<and> (case hub_register 1 60 [''tok1''] 0
          \<lparr>sessions = [],
           clients = (\<lambda>_. \<lparr>open = False, send = \<lparr>buf = [], cap = 1024, closed = False\<rparr>,
                             sendToken = \<lparr>buf = [''nil''], cap = 1, closed = False\<rparr>\<rparr>)\<rparr> of
        Inl f \<Rightarrow> False
      | Inr svr' \<Rightarrow> buf (sendToken (clients svr' 0)) = [''tok1'']
                    \<and> buf (send (clients svr' 0)) = [])"
  using token_queued_before_any_data [of "''nil''"
          "\<lparr>sessions = [],
           clients = (\<lambda>_. \<lparr>open = False, send = \<lparr>buf = [], cap = 1024, closed = False\<rparr>,
                             sendToken = \<lparr>buf = [''nil''], cap = 1, closed = False\<rparr>\<rparr>)\<rparr>"
          0 1 60 "[''tok1'']" "\<lparr>wire = [], connClosed = False\<rparr>"]
  by (simp add: serveWs_client_def make_chan_def send_chan_def sendMsgBufferSize_def
      sendTokenBufferSize_def NewSession_def Exists_def hub_register_def recv_chan_def)

end
